(* ===== verification/Prelude.thy ===== *)
theory Prelude
  imports Main "HOL-Library.Word" "HOL-Library.Sublist"
begin

text \<open>
  Shared vocabulary of the development: the byte type of Node's Buffer, the
  JavaScript errors the handler can raise or receive, and the effect-trace
  monad that models \<open>async\<close>/\<open>await\<close> with exceptions.

  A value of type \<open>('e, 'a) io\<close> is the outcome of running an async function:
  \<open>Some (t, Inr a)\<close> when it resolves to \<open>a\<close> after the effects \<open>t\<close>,
  \<open>Some (t, Inl e)\<close> when it rejects (throws) with \<open>e\<close> after \<open>t\<close>, and
  \<open>None\<close> when the run leaves the fragment of JavaScript that the model
  covers (only \<open>Number.prototype.toFixed\<close> on magnitudes of at least
  \<open>10^21\<close> does, see theory \<open>JsNumber\<close>).  \<open>io_bind\<close> is \<open>await\<close>: a
  rejection skips the rest of the block, as an exception does.
\<close>

named_theorems io_simps "equations of the effect-trace monad"

type_synonym byte = "8 word"
type_synonym bytes = "byte list"

datatype js_error =
    TypeError string   \<comment> \<open>raised by the JavaScript runtime inside the handler\<close>
  | RangeError string  \<comment> \<open>raised by a runtime primitive given an argument out of range\<close>
  | Rejected string    \<comment> \<open>a promise of an external collaborator rejected\<close>

text \<open>\<open>error.stack\<close> as \<open>console.log\<close> prints it (first line only).\<close>

fun js_error_stack :: "js_error \<Rightarrow> string" where
  "js_error_stack (TypeError m) = ''TypeError: '' @ m"
| "js_error_stack (RangeError m) = ''RangeError: '' @ m"
| "js_error_stack (Rejected m) = m"

type_synonym ('e, 'a) io = "('e list \<times> (js_error + 'a)) option"

definition io_return :: "'a \<Rightarrow> ('e, 'a) io" where
  "io_return a = Some ([], Inr a)"

definition io_throw :: "js_error \<Rightarrow> ('e, 'a) io" where
  "io_throw e = Some ([], Inl e)"

text \<open>An external call: the request is recorded, then its promise settles.\<close>

definition io_call :: "'e \<Rightarrow> (js_error + 'a) \<Rightarrow> ('e, 'a) io" where
  "io_call eff r = Some ([eff], r)"

definition io_of_sum :: "(js_error + 'a) \<Rightarrow> ('e, 'a) io" where
  "io_of_sum r = Some ([], r)"

text \<open>A synchronous computation inside an async block: no effect, and \<open>None\<close> stays \<open>None\<close>.\<close>

definition io_of_result :: "(js_error + 'a) option \<Rightarrow> ('e, 'a) io" where
  "io_of_result r = map_option (Pair []) r"

text \<open>The outcome of \<open>m\<close> after the effects \<open>t\<close> have already happened.\<close>

definition io_after :: "'e list \<Rightarrow> ('e, 'a) io \<Rightarrow> ('e, 'a) io" where
  "io_after t m = map_option (\<lambda>(u, r). (t @ u, r)) m"

definition io_bind :: "('e, 'a) io \<Rightarrow> ('a \<Rightarrow> ('e, 'b) io) \<Rightarrow> ('e, 'b) io" where
  "io_bind m f =
     (case m of
        None \<Rightarrow> None
      | Some (t, Inl e) \<Rightarrow> Some (t, Inl e)
      | Some (t, Inr a) \<Rightarrow> io_after t (f a))"

text \<open>\<open>try { m } catch (e) { h e }\<close>.\<close>

definition io_catch :: "('e, 'a) io \<Rightarrow> (js_error \<Rightarrow> ('e, 'a) io) \<Rightarrow> ('e, 'a) io" where
  "io_catch m h =
     (case m of
        None \<Rightarrow> None
      | Some (t, Inl e) \<Rightarrow> io_after t (h e)
      | Some (t, Inr a) \<Rightarrow> Some (t, Inr a))"

subsection \<open>Effects that already happened\<close>

lemma io_after_Nil [simp, io_simps]: "io_after [] m = m"
  by (simp add: io_after_def case_prod_beta' option.map_ident)

lemma io_after_None [simp, io_simps]: "io_after t None = None"
  by (simp add: io_after_def)

lemma io_after_Some [simp, io_simps]: "io_after t (Some (u, r)) = Some (t @ u, r)"
  by (simp add: io_after_def)

lemma io_after_after [simp, io_simps]: "io_after t (io_after u m) = io_after (t @ u) m"
  by (cases m) (auto simp: io_after_def)

lemma io_after_eq_Some_iff:
  "io_after t m = Some (v, r) \<longleftrightarrow> (\<exists>u. m = Some (u, r) \<and> v = t @ u)"
  by (cases m) (auto simp: io_after_def)

subsection \<open>Monad laws and evaluation rules\<close>

lemma io_bind_return [simp, io_simps]: "io_bind (io_return a) f = f a"
  by (simp add: io_bind_def io_return_def)

lemma io_bind_throw [simp, io_simps]: "io_bind (io_throw e) f = io_throw e"
  by (simp add: io_bind_def io_throw_def)

lemma io_bind_call_Inl [simp, io_simps]:
  "io_bind (io_call eff (Inl e)) f = Some ([eff], Inl e)"
  by (simp add: io_bind_def io_call_def)

lemma io_bind_call_Inr [simp, io_simps]:
  "io_bind (io_call eff (Inr a)) f = io_after [eff] (f a)"
  by (simp add: io_bind_def io_call_def)

lemma io_bind_of_sum [simp, io_simps]:
  "io_bind (io_of_sum r) f = (case r of Inl e \<Rightarrow> io_throw e | Inr a \<Rightarrow> f a)"
  by (cases r) (auto simp: io_bind_def io_of_sum_def io_throw_def)

lemma io_bind_of_result [simp, io_simps]:
  "io_bind (io_of_result r) f =
     (case r of None \<Rightarrow> None | Some (Inl e) \<Rightarrow> Some ([], Inl e) | Some (Inr a) \<Rightarrow> f a)"
  by (auto simp: io_bind_def io_of_result_def split: option.splits sum.splits)

lemma io_bind_None [simp, io_simps]: "io_bind None f = None"
  by (simp add: io_bind_def)

lemma io_bind_Some_Inl [simp, io_simps]: "io_bind (Some (t, Inl e)) f = Some (t, Inl e)"
  by (simp add: io_bind_def)

lemma io_bind_Some_Inr [simp, io_simps]: "io_bind (Some (t, Inr a)) f = io_after t (f a)"
  by (simp add: io_bind_def)

lemma io_bind_after [simp, io_simps]: "io_bind (io_after t m) f = io_after t (io_bind m f)"
proof (cases m)
  case (Some p)
  then obtain u r where "m = Some (u, r)" by (cases p) auto
  then show ?thesis by (cases r) simp_all
qed simp

lemma io_bind_right_unit [simp]: "io_bind m io_return = m"
  by (auto simp: io_bind_def io_return_def split: option.splits sum.splits)

lemma io_bind_assoc:
  "io_bind (io_bind m f) g = io_bind m (\<lambda>a. io_bind (f a) g)"
  by (auto simp: io_bind_def split: option.splits sum.splits)

lemma io_catch_throw [simp, io_simps]: "io_catch (io_throw e) h = h e"
  by (simp add: io_catch_def io_throw_def)

lemma io_catch_Some_Inl [simp, io_simps]: "io_catch (Some (t, Inl e)) h = io_after t (h e)"
  by (simp add: io_catch_def)

lemma io_catch_Some_Inr [simp, io_simps]: "io_catch (Some (t, Inr a)) h = Some (t, Inr a)"
  by (simp add: io_catch_def)

lemma io_catch_None [simp, io_simps]: "io_catch None h = None"
  by (simp add: io_catch_def)

lemma io_catch_after [simp, io_simps]: "io_catch (io_after t m) h = io_after t (io_catch m h)"
proof (cases m)
  case (Some p)
  then obtain u r where "m = Some (u, r)" by (cases p) auto
  then show ?thesis by (cases r) simp_all
qed simp

subsection \<open>Sums\<close>

lemma map_sum_eq_Inr_iff [simp]: "map_sum f g z = Inr b \<longleftrightarrow> (\<exists>a. z = Inr a \<and> b = g a)"
  by (cases z) auto

lemma map_sum_eq_Inl_iff [simp]: "map_sum f g z = Inl b \<longleftrightarrow> (\<exists>a. z = Inl a \<and> b = f a)"
  by (cases z) auto

subsection \<open>Lists\<close>

lemma sublist_singleton_iff: "sublist [x] ys \<longleftrightarrow> x \<in> set ys"
  by (auto simp: sublist_def in_set_conv_decomp)

lemma map2_map_left: "map2 f (map g xs) xs = map (\<lambda>x. f (g x) x) xs"
  by (induction xs) simp_all

text \<open>
  An occurrence of \<open>sep\<close> that starts inside \<open>x\<close> in \<open>x @ sep @ rest\<close> already
  lies inside \<open>x @ butlast sep\<close>.
\<close>

lemma prefix_drop_append_sep:
  assumes "prefix sep (drop k x @ sep @ rest)" and "k < length x"
  shows "sublist sep (x @ butlast sep)"
proof -
  let ?d = "drop k x"
  have "prefix (butlast sep) (sep @ rest)"
    by (metis prefix_append prefixeq_butlast)
  then have "prefix (?d @ butlast sep) (?d @ sep @ rest)"
    by simp
  moreover have "length sep \<le> length (?d @ butlast sep)"
    using assms(2) by simp
  ultimately have "prefix sep (?d @ butlast sep)"
    using assms(1) by (metis prefix_length_prefix)
  then have "sublist sep (?d @ butlast sep)"
    by (rule prefix_imp_sublist)
  moreover have "x @ butlast sep = take k x @ (?d @ butlast sep)"
    by simp
  ultimately show ?thesis
    by (metis sublist_order.dual_order.trans sublist_append_leftI)
qed

end
