(* ===== verification/JsNumber.thy ===== *)
theory JsNumber
  imports Complex_Main Prelude
begin

text \<open>
  \<open>Number.prototype.toFixed\<close>, which the report formatting applies to every
  label's confidence (\<open>src/handler.js\<close> line 57, \<open>confidence.toFixed(2)\<close>).
  A JavaScript number is an IEEE double; the model takes its exact value as a
  rational, which is what ECMA-262 \<section>21.1.3.3 computes with.  The digit
  string of a natural number follows the same specification (\<open>Number::toString\<close>
  of an integer below \<open>10^21\<close>).  The branch for magnitudes of at least
  \<open>10^21\<close>, where \<open>toFixed\<close> falls back on the shortest round-trip
  representation of a double in exponential notation, is outside the model:
  there \<open>to_fixed\<close> is \<open>None\<close>.  Confidences of the label-detection service lie
  in \<open>[0, 100]\<close>.
\<close>

definition is_digit :: "char \<Rightarrow> bool" where
  "is_digit c \<longleftrightarrow> 48 \<le> (of_char c :: nat) \<and> (of_char c :: nat) \<le> 57"

fun decimal_digits :: "nat \<Rightarrow> string" where
  "decimal_digits n =
     (if n < 10 then [char_of (48 + n)]
      else decimal_digits (n div 10) @ [char_of (48 + n mod 10)])"

text \<open>The value of a string of decimal digits (the reading direction of a parser).\<close>

definition digits_value :: "string \<Rightarrow> nat" where
  "digits_value ds = foldl (\<lambda>a c. 10 * a + (of_char c - 48)) 0 ds"

text \<open>
  Steps 10.b--10.d of \<open>toFixed\<close>: the digits of \<open>n\<close>, left-padded with zeros
  to at least \<open>f + 1\<close> digits, with a point before the last \<open>f\<close>.
\<close>

definition fixed_point_string :: "nat \<Rightarrow> nat \<Rightarrow> string" where
  "fixed_point_string f n =
     (let m = (if n = 0 then ''0'' else decimal_digits n) in
      if f = 0 then m
      else
        (let m' = (if length m \<le> f then replicate (f + 1 - length m) CHR ''0'' @ m else m);
             k = length m'
         in take (k - f) m' @ ''.'' @ drop (k - f) m'))"

text \<open>
  \<open>toFixed(f)\<close>: a digit count outside \<open>0..100\<close> raises a RangeError; a
  negative value is printed as \<open>"-"\<close> followed by its magnitude; \<open>n\<close> is the
  integer nearest to \<open>x * 10^f\<close>, the larger one on a tie.
\<close>

definition to_fixed :: "nat \<Rightarrow> rat \<Rightarrow> (js_error + string) option" where
  "to_fixed f x =
     (if 100 < f then Some (Inl (RangeError ''toFixed() digits argument must be between 0 and 100''))
      else
        (let s = (if x < 0 then ''-'' else ''''); y = \<bar>x\<bar> in
         if 10 ^ 21 \<le> y then None
         else Some (Inr (s @ fixed_point_string f (nat (floor (y * 10 ^ f + 1 / 2)))))))"

subsection \<open>Digits\<close>

declare decimal_digits.simps [simp del]

lemma char_of_48: "char_of (48::nat) = CHR ''0''"
  by (simp add: char_of_def bit_0)

lemma decimal_digits_0 [simp]: "decimal_digits 0 = ''0''"
  by (simp add: decimal_digits.simps char_of_48)

lemma decimal_digits_nonempty [simp]: "decimal_digits n \<noteq> []"
  by (subst decimal_digits.simps) simp

lemma is_digit_char_of: "(d::nat) < 10 \<Longrightarrow> is_digit (char_of (48 + d))"
  by (simp add: is_digit_def of_char_of)

lemma is_digit_zero [simp]: "is_digit CHR ''0''"
  by (simp add: is_digit_def)

lemma digits_value_snoc [simp]:
  "digits_value (ds @ [c]) = 10 * digits_value ds + (of_char c - 48)"
  by (simp add: digits_value_def)

lemma decimal_digits_is_digit: "\<forall>c\<in>set (decimal_digits n). is_digit c"
proof (induction n rule: decimal_digits.induct)
  case (1 n)
  then show ?case
    by (subst decimal_digits.simps) (auto intro: is_digit_char_of)
qed

lemma decimal_digits_value [simp]: "digits_value (decimal_digits n) = n"
proof (induction n rule: decimal_digits.induct)
  case (1 n)
  show ?case
  proof (cases "n < 10")
    case True
    then show ?thesis
      by (subst decimal_digits.simps) (simp add: digits_value_def of_char_of)
  next
    case False
    with "1.IH" show ?thesis
      by (subst decimal_digits.simps) (simp add: of_char_of)
  qed
qed

lemma digits_value_zeros [simp]:
  "digits_value (replicate k CHR ''0'' @ ds) = digits_value ds"
proof -
  have "foldl (\<lambda>a c. 10 * a + (of_char c - 48)) 0 (replicate k CHR ''0'') = (0::nat)"
    by (induction k) simp_all
  then show ?thesis by (simp add: digits_value_def)
qed

text \<open>
  The string built for a rounded value \<open>n\<close> is an integer part of at least one digit,
  a point and exactly \<open>f\<close> fraction digits, and reads back as \<open>n\<close>.
\<close>

lemma fixed_point_string_shape:
  assumes "0 < f"
  obtains a b where "fixed_point_string f n = a @ ''.'' @ b" and "length b = f"
    and "a \<noteq> []" and "\<forall>c\<in>set (a @ b). is_digit c" and "digits_value (a @ b) = n"
proof -
  let ?m = "decimal_digits n"
  let ?m' = "if length ?m \<le> f then replicate (f + 1 - length ?m) CHR ''0'' @ ?m else ?m"
  let ?k = "length ?m'"
  have m: "(if n = 0 then ''0'' else decimal_digits n) = ?m" by simp
  have k: "f + 1 \<le> ?k" by auto
  have str: "fixed_point_string f n = take (?k - f) ?m' @ ''.'' @ drop (?k - f) ?m'"
    using assms by (simp only: fixed_point_string_def m Let_def) simp
  have "length (drop (?k - f) ?m') = f" using k by simp
  moreover have "take (?k - f) ?m' \<noteq> []" using k by simp
  moreover have "\<forall>c\<in>set ?m'. is_digit c" using decimal_digits_is_digit [of n] by auto
  then have "\<forall>c\<in>set (take (?k - f) ?m' @ drop (?k - f) ?m'). is_digit c" by simp
  moreover have "digits_value (take (?k - f) ?m' @ drop (?k - f) ?m') = n" by simp
  ultimately show ?thesis using str that by blast
qed

lemma fixed_point_string_chars:
  "0 < f \<Longrightarrow> c \<in> set (fixed_point_string f n) \<Longrightarrow> is_digit c \<or> c = CHR ''.''"
  by (rule fixed_point_string_shape [of f n]) auto

subsection \<open>Rounding\<close>

lemma round_half_up_bound:
  assumes "0 \<le> z"
  shows "\<bar>of_nat (nat (floor (z + 1 / 2))) - z\<bar> \<le> (1 / 2 :: rat)"
proof -
  have "0 \<le> floor (z + 1 / 2)" using assms by simp
  then have n: "of_nat (nat (floor (z + 1 / 2))) = (of_int (floor (z + 1 / 2)) :: rat)"
    by simp
  have "of_int (floor (z + 1 / 2)) \<le> z + 1 / 2" by (rule of_int_floor_le)
  moreover have "z + 1 / 2 < of_int (floor (z + 1 / 2)) + 1" using floor_correct [of "z + 1 / 2"] by simp
  ultimately show ?thesis unfolding n abs_le_iff by linarith
qed

lemma scaled_distance:
  fixes x r :: rat
  shows "\<bar>r / 10 ^ f - x\<bar> = \<bar>r - x * 10 ^ f\<bar> / 10 ^ f"
proof -
  have pos: "(0::rat) < 10 ^ f" by simp
  have "r / 10 ^ f - x = (r - x * 10 ^ f) / 10 ^ f" using pos by (simp add: field_simps)
  then show ?thesis by simp
qed

lemma scaled_error:
  fixes x :: rat
  assumes "\<bar>r - x * 10 ^ f\<bar> \<le> 1 / 2"
  shows "\<bar>r / 10 ^ f - x\<bar> \<le> 1 / (2 * 10 ^ f)"
proof -
  have pos: "(0::rat) < 10 ^ f" by simp
  have "\<bar>r / 10 ^ f - x\<bar> = \<bar>r - x * 10 ^ f\<bar> / 10 ^ f" by (rule scaled_distance)
  also have "\<dots> \<le> (1 / 2) / 10 ^ f"
    using assms pos by (intro divide_right_mono) simp_all
  also have "\<dots> = 1 / (2 * 10 ^ f)" by simp
  finally show ?thesis .
qed

text \<open>Rounding half up picks a nearest integer, and the larger one on a tie.\<close>

lemma round_half_up_nearest:
  fixes z :: rat
  shows "\<bar>of_int (floor (z + 1 / 2)) - z\<bar> \<le> \<bar>of_int m - z\<bar>"
    and "\<bar>of_int m - z\<bar> = \<bar>of_int (floor (z + 1 / 2)) - z\<bar> \<Longrightarrow> m \<le> floor (z + 1 / 2)"
proof -
  let ?n = "floor (z + 1 / 2)"
  have lo: "of_int ?n \<le> z + 1 / 2" by (rule of_int_floor_le)
  have hi: "z + 1 / 2 < of_int ?n + 1" using floor_correct [of "z + 1 / 2"] by simp
  consider "m \<le> ?n - 1" | "m = ?n" | "?n + 1 \<le> m" by linarith
  note cases = this
  then show "\<bar>of_int ?n - z\<bar> \<le> \<bar>of_int m - z\<bar>"
  proof cases
    case 1
    then have "of_int m \<le> of_int ?n - (1::rat)" by (simp add: of_int_le_iff [symmetric])
    with lo hi show ?thesis by linarith
  next
    case 3
    then have "of_int ?n + (1::rat) \<le> of_int m" by (simp add: of_int_le_iff [symmetric])
    with lo hi show ?thesis by linarith
  qed simp
  assume eq: "\<bar>of_int m - z\<bar> = \<bar>of_int ?n - z\<bar>"
  from cases show "m \<le> ?n"
  proof cases
    case 3
    then have "of_int ?n + (1::rat) \<le> of_int m" by (simp add: of_int_le_iff [symmetric])
    with lo hi eq show ?thesis by linarith
  qed simp_all
qed

lemma floor_numeral_divide [simp]:
  "floor ((numeral a :: rat) / numeral b) = numeral a div numeral b"
  using floor_divide_of_int_eq [of "numeral a" "numeral b", where 'a = rat] by simp

lemma to_fixed_eq:
  assumes "f \<le> 100" and "\<bar>x\<bar> < 10 ^ 21"
  shows "to_fixed f x =
    Some (Inr ((if x < 0 then ''-'' else '''') @ fixed_point_string f (nat (floor (\<bar>x\<bar> * 10 ^ f + 1 / 2)))))"
  using assms by (simp add: to_fixed_def Let_def)

lemma to_fixed_in_range: "f \<le> 100 \<Longrightarrow> \<bar>x\<bar> < 10 ^ 21 \<Longrightarrow> \<exists>s. to_fixed f x = Some (Inr s)"
  by (simp add: to_fixed_eq)

subsection \<open>Properties of toFixed\<close>

text \<open>
  C13: for a digit count \<open>f\<close> in \<open>1..100\<close> and a value below \<open>10^21\<close> in magnitude,
  \<open>toFixed(f)\<close> yields an optional minus sign, at least one integer digit, a point
  and exactly \<open>f\<close> fraction digits; in particular \<open>toFixed(2)\<close> always prints two
  decimals, whatever the precision of the input.
\<close>

theorem to_fixed_format:
  assumes "0 < f" and "f \<le> 100" and "\<bar>x\<bar> < 10 ^ 21"
  shows "\<exists>a b. to_fixed f x = Some (Inr ((if x < 0 then ''-'' else '''') @ a @ ''.'' @ b)) \<and>
    length b = f \<and> a \<noteq> [] \<and> (\<forall>c\<in>set (a @ b). is_digit c)"
proof -
  obtain a b where "fixed_point_string f (nat (floor (\<bar>x\<bar> * 10 ^ f + 1 / 2))) = a @ ''.'' @ b"
    and "length b = f" and "a \<noteq> []" and "\<forall>c\<in>set (a @ b). is_digit c"
    using assms(1) by (rule fixed_point_string_shape)
  with assms(2,3) show ?thesis by (auto simp: to_fixed_eq)
qed

text \<open>
  C14: for a non-negative value below \<open>10^21\<close>, the digits printed by
  \<open>toFixed(f)\<close> read back as a number within \<open>1/(2 * 10^f)\<close> of the value: the
  printed number is the value rounded to \<open>f\<close> decimals.
\<close>

theorem to_fixed_value:
  assumes "0 < f" and "f \<le> 100" and "0 \<le> x" and "x < 10 ^ 21"
  shows "\<exists>a b. to_fixed f x = Some (Inr (a @ ''.'' @ b)) \<and> length b = f \<and>
    \<bar>of_nat (digits_value (a @ b)) / 10 ^ f - x\<bar> \<le> 1 / (2 * 10 ^ f)"
proof -
  let ?n = "nat (floor (x * 10 ^ f + 1 / 2))"
  obtain a b where str: "fixed_point_string f ?n = a @ ''.'' @ b"
    and len: "length b = f" and val: "digits_value (a @ b) = ?n"
    using assms(1) by (rule fixed_point_string_shape)
  have "\<bar>of_nat ?n - x * 10 ^ f\<bar> \<le> 1 / 2"
    using assms(3) by (intro round_half_up_bound) simp
  then have "\<bar>of_nat ?n / 10 ^ f - x\<bar> \<le> 1 / (2 * 10 ^ f)"
    by (rule scaled_error)
  moreover have "to_fixed f x = Some (Inr (a @ ''.'' @ b))"
    using assms str by (simp add: to_fixed_eq)
  ultimately show ?thesis using len val by (intro exI [of _ a] exI [of _ b]) simp
qed

text \<open>
  C25 (toFixed meets its specification): ECMA-262 step 10.a asks for an integer
  \<open>n\<close> for which \<open>n / 10^f - x\<close> is as close to zero as possible, the larger
  one if there are two.  For a non-negative value below \<open>10^21\<close>, the digits
  \<open>toFixed(f)\<close> prints read back as such an \<open>n\<close>: no integer is closer, and an
  integer as close is not larger.
\<close>

theorem to_fixed_nearest:
  assumes "0 < f" and "f \<le> 100" and "0 \<le> x" and "x < 10 ^ 21"
  shows "\<exists>a b. to_fixed f x = Some (Inr (a @ ''.'' @ b)) \<and> length b = f \<and>
    (\<forall>m::int. \<bar>of_nat (digits_value (a @ b)) / 10 ^ f - x\<bar> \<le> \<bar>of_int m / 10 ^ f - x\<bar> \<and>
      (\<bar>of_int m / 10 ^ f - x\<bar> = \<bar>of_nat (digits_value (a @ b)) / 10 ^ f - x\<bar> \<longrightarrow>
       m \<le> int (digits_value (a @ b))))"
proof -
  let ?z = "x * 10 ^ f"
  let ?n = "nat (floor (?z + 1 / 2))"
  obtain a b where str: "fixed_point_string f ?n = a @ ''.'' @ b"
    and len: "length b = f" and val: "digits_value (a @ b) = ?n"
    using assms(1) by (rule fixed_point_string_shape)
  have nonneg: "0 \<le> floor (?z + 1 / 2)" using assms(3) by simp
  then have n: "(of_nat ?n :: rat) = of_int (floor (?z + 1 / 2))" and ni: "int ?n = floor (?z + 1 / 2)"
    by simp_all
  have pos: "(0::rat) < 10 ^ f" by simp
  have near: "\<bar>of_nat ?n / 10 ^ f - x\<bar> \<le> \<bar>of_int m / 10 ^ f - x\<bar>
    \<and> (\<bar>of_int m / 10 ^ f - x\<bar> = \<bar>of_nat ?n / 10 ^ f - x\<bar> \<longrightarrow> m \<le> int ?n)" for m :: int
  proof
    show "\<bar>of_nat ?n / 10 ^ f - x\<bar> \<le> \<bar>of_int m / 10 ^ f - x\<bar>"
      unfolding scaled_distance n using round_half_up_nearest(1) [of ?z m] pos
      by (intro divide_right_mono) simp_all
    show "\<bar>of_int m / 10 ^ f - x\<bar> = \<bar>of_nat ?n / 10 ^ f - x\<bar> \<longrightarrow> m \<le> int ?n"
      unfolding scaled_distance n ni using round_half_up_nearest(2) [of m ?z] pos by simp
  qed
  have "to_fixed f x = Some (Inr (a @ ''.'' @ b))"
    using assms str by (simp add: to_fixed_eq)
  then show ?thesis using len val near by (intro exI [of _ a] exI [of _ b]) simp
qed

subsection \<open>Witnesses\<close>

theorem to_fixed_format_witness:
  "0 < (2::nat) \<and> (2::nat) \<le> 100 \<and> \<bar>191 / 2 :: rat\<bar> < 10 ^ 21 \<and>
   (\<exists>a b. to_fixed 2 (191 / 2) = Some (Inr ((if (191 / 2 :: rat) < 0 then ''-'' else '''') @ a @ ''.'' @ b)) \<and>
      length b = 2 \<and> a \<noteq> [])"
  using to_fixed_format [of 2 "191 / 2"] by auto

theorem to_fixed_value_witness:
  "0 < (2::nat) \<and> (2::nat) \<le> 100 \<and> 0 \<le> (81 :: rat) \<and> (81 :: rat) < 10 ^ 21 \<and>
   (\<exists>a b. to_fixed 2 81 = Some (Inr (a @ ''.'' @ b)) \<and> length b = 2 \<and>
      \<bar>of_nat (digits_value (a @ b)) / 10 ^ 2 - (81 :: rat)\<bar> \<le> 1 / (2 * 10 ^ 2))"
  using to_fixed_value [of 2 81] by simp

lemma to_fixed_95_5: "to_fixed 2 (191 / 2) = Some (Inr ''95.50'')"
  by (simp add: to_fixed_def fixed_point_string_def decimal_digits.simps char_of_def bit_0)

lemma to_fixed_81: "to_fixed 2 81 = Some (Inr ''81.00'')"
  by (simp add: to_fixed_def fixed_point_string_def decimal_digits.simps char_of_def bit_0)

theorem to_fixed_nearest_witness:
  "0 < (2::nat) \<and> (2::nat) \<le> 100 \<and> 0 \<le> (1 / 200 :: rat) \<and> (1 / 200 :: rat) < 10 ^ 21 \<and>
   (\<exists>a b. to_fixed 2 (1 / 200) = Some (Inr (a @ ''.'' @ b)) \<and> length b = 2)"
  using to_fixed_nearest [of 2 "1 / 200"] by auto

end
