(* ===== verification/JsArray.thy ===== *)
theory JsArray
  imports JsNumber
begin

text \<open>
  Arrays read through string keys, as the \<open>for (const indexText in texts)\<close>
  loop of \<open>formatTranslatedText\<close> (\<open>src/handler.js\<close> lines 53--55) reads them:
  \<open>for-in\<close> over an array visits its index keys \<open>"0"\<close>, \<open>"1"\<close>, \<dots> in
  ascending order (ECMA-262 \<section>10.4.2 and \<section>14.7.5.9, an array created by
  \<open>split\<close> has no other enumerable property), and \<open>a[key]\<close> is the element at
  the index the key denotes, or \<open>undefined\<close> (\<open>None\<close>) when the key is no
  array index or lies past the end.  A key denotes an index when it is the
  canonical decimal string of that index (no sign, no leading zero); the
  ECMA-262 bound \<open>2^32 - 1\<close> on indices is left out, since no array of the
  handler comes near it.
\<close>

text \<open>The index a property key denotes: \<open>CanonicalNumericIndexString\<close> restricted to array indices.\<close>

definition array_index :: "string \<Rightarrow> nat option" where
  "array_index k =
     (if k \<noteq> [] \<and> (\<forall>c\<in>set k. is_digit c) \<and> (k = ''0'' \<or> hd k \<noteq> CHR ''0'')
      then Some (digits_value k) else None)"

text \<open>The keys \<open>for-in\<close> visits on an array: \<open>ToString\<close> of each index, in ascending order.\<close>

definition array_keys :: "'a list \<Rightarrow> string list" where
  "array_keys xs = map decimal_digits [0..<length xs]"

text \<open>\<open>a[key]\<close>: \<open>None\<close> is \<open>undefined\<close>.\<close>

definition array_get :: "'a list \<Rightarrow> string \<Rightarrow> 'a option" where
  "array_get xs k =
     (case array_index k of
        Some n \<Rightarrow> if n < length xs then Some (xs ! n) else None
      | None \<Rightarrow> None)"

subsection \<open>Index keys\<close>

lemma decimal_digits_hd:
  assumes "0 < n" shows "hd (decimal_digits n) \<noteq> CHR ''0''"
  using assms
proof (induction n rule: decimal_digits.induct)
  case (1 n)
  show ?case
  proof (cases "n < 10")
    case True
    then have "decimal_digits n = [char_of (48 + n)]" by (simp add: decimal_digits.simps)
    moreover have "char_of (48 + n) \<noteq> CHR ''0''"
    proof
      assume "char_of (48 + n) = CHR ''0''"
      then have "(of_char (char_of (48 + n)) :: nat) = of_char CHR ''0''" by simp
      with True "1.prems" show False by (simp add: of_char_of)
    qed
    ultimately show ?thesis by simp
  next
    case False
    then have "decimal_digits n = decimal_digits (n div 10) @ [char_of (48 + n mod 10)]"
      by (simp add: decimal_digits.simps)
    moreover have "hd (decimal_digits (n div 10)) \<noteq> CHR ''0''"
      using "1.IH" False by simp
    ultimately show ?thesis by simp
  qed
qed

lemma array_index_decimal_digits [simp]: "array_index (decimal_digits n) = Some n"
proof (cases "n = 0")
  case True
  then show ?thesis using decimal_digits_value [of 0] by (simp add: array_index_def)
next
  case False
  then show ?thesis
    using decimal_digits_hd [of n] decimal_digits_is_digit [of n] by (simp add: array_index_def)
qed

lemma array_get_key [simp]:
  "array_get xs (decimal_digits i) = (if i < length xs then Some (xs ! i) else None)"
  by (simp add: array_get_def)

lemma array_keys_drop:
  "drop i (array_keys xs) = map decimal_digits [i..<length xs]"
  by (simp add: array_keys_def drop_map)

end
