(* ===== verification/JsString.thy ===== *)
theory JsString
  imports Prelude
begin

text \<open>
  The two string primitives of the JavaScript runtime that the handler relies on:
  \<open>Array.prototype.join\<close> (\<open>src/handler.js\<close> lines 21--23, joining the label
  names with \<open>' and '\<close>, and line 60, joining the report lines with a newline) and
  \<open>String.prototype.split\<close> with a string separator (line 47, splitting the
  translation on \<open>' e '\<close>).  Strings are lists of code units (\<open>char\<close>).
  \<open>split\<close> follows ECMA-262 \<section>22.1.3.23 with \<open>limit\<close> undefined: an empty
  separator splits into single code units, an empty subject gives \<open>[""]\<close>,
  otherwise the subject is scanned left to right and cut at every
  non-overlapping occurrence of the separator.
\<close>

fun js_join :: "string \<Rightarrow> string list \<Rightarrow> string" where
  "js_join sep [] = []"
| "js_join sep [x] = x"
| "js_join sep (x # y # zs) = x @ sep @ js_join sep (y # zs)"

text \<open>
  \<open>join\<close> as ECMA-262 (\<section>23.1.3.18, steps 6--8) writes it: a loop over the
  indices that appends the separator before every element but the first.
\<close>

function join_loop :: "string \<Rightarrow> string list \<Rightarrow> nat \<Rightarrow> string \<Rightarrow> string" where
  "join_loop sep xs k R =
     (if k < length xs
      then join_loop sep xs (Suc k) ((if 0 < k then R @ sep else R) @ xs ! k)
      else R)"
  by pat_completeness auto
termination
  by (relation "measure (\<lambda>(sep, xs, k, R). length xs - k)") auto

text \<open>
  The scanning loop of \<open>split\<close>: \<open>cur\<close> is the substring from the last cut
  \<open>i\<close> to the current position; at each position the separator either starts
  (cut, and resume after it) or does not (the code unit joins \<open>cur\<close>).
\<close>

fun split_acc :: "string \<Rightarrow> string \<Rightarrow> string \<Rightarrow> string list" where
  "split_acc sep cur [] = [cur]"
| "split_acc sep cur (c # cs) =
     (if sep \<noteq> [] \<and> prefix sep (c # cs)
      then cur # split_acc sep [] (drop (length sep) (c # cs))
      else split_acc sep (cur @ [c]) cs)"

definition js_split :: "string \<Rightarrow> string \<Rightarrow> string list" where
  "js_split sep s =
     (if sep = [] then map (\<lambda>c. [c]) s
      else if s = [] then [s]
      else split_acc sep [] s)"

text \<open>Invariant of the scan: no occurrence of the separator starts inside \<open>cur\<close>.\<close>

definition no_sep_start :: "string \<Rightarrow> string \<Rightarrow> string \<Rightarrow> bool" where
  "no_sep_start sep cur s \<longleftrightarrow> (\<forall>i < length cur. \<not> prefix sep (drop i cur @ s))"

subsection \<open>Join\<close>

lemma js_join_Cons:
  "js_join sep (x # xs) = (if xs = [] then x else x @ sep @ js_join sep xs)"
  by (cases xs) simp_all

lemma js_join_append_singleton [simp]:
  "xs \<noteq> [] \<Longrightarrow> js_join sep (xs @ [y]) = js_join sep xs @ sep @ y"
  by (induction sep xs rule: js_join.induct) simp_all

lemma length_js_join:
  "length (js_join sep xs) = sum_list (map length xs) + length sep * (length xs - 1)"
  by (induction sep xs rule: js_join.induct) simp_all

declare join_loop.simps [simp del]

lemma join_loop_drop:
  "k < length xs \<Longrightarrow>
   join_loop sep xs k R = R @ (if 0 < k then sep else []) @ js_join sep (drop k xs)"
proof (induction sep xs k R rule: join_loop.induct)
  case (1 sep xs k R)
  have dk: "drop k xs = xs ! k # drop (Suc k) xs" using "1.prems" by (simp add: Cons_nth_drop_Suc)
  show ?case
  proof (cases "Suc k < length xs")
    case True
    then show ?thesis using "1.IH" [OF "1.prems"] "1.prems" dk
      by (subst join_loop.simps) (simp add: js_join_Cons)
  next
    case False
    then have "drop (Suc k) xs = []" by simp
    then show ?thesis using "1.prems" dk False
      by (subst join_loop.simps, subst join_loop.simps) simp
  qed
qed

subsection \<open>Split\<close>

lemma split_acc_nonempty: "split_acc sep cur s \<noteq> []"
  by (induction sep cur s rule: split_acc.induct) simp_all

lemma js_join_split_acc:
  "sep \<noteq> [] \<Longrightarrow> js_join sep (split_acc sep cur s) = cur @ s"
proof (induction sep cur s rule: split_acc.induct)
  case (2 sep cur c cs)
  show ?case
  proof (cases "prefix sep (c # cs)")
    case True
    then have "sep @ drop (length sep) (c # cs) = c # cs"
      by (auto simp: prefix_def)
    with True "2.IH"(1) "2.prems" show ?thesis
      by (simp add: js_join_Cons split_acc_nonempty)
  next
    case False
    with "2.IH"(2) "2.prems" show ?thesis by simp
  qed
qed simp

lemma no_sep_start_Nil [simp]: "no_sep_start sep [] s"
  by (simp add: no_sep_start_def)

lemma no_sep_start_snoc:
  assumes "no_sep_start sep cur (c # cs)" and "\<not> prefix sep (c # cs)"
  shows "no_sep_start sep (cur @ [c]) cs"
  unfolding no_sep_start_def
proof (intro allI impI)
  fix i assume "i < length (cur @ [c])"
  then consider "i < length cur" | "i = length cur" by fastforce
  then show "\<not> prefix sep (drop i (cur @ [c]) @ cs)"
  proof cases
    case 1
    with assms(1) show ?thesis by (simp add: no_sep_start_def)
  next
    case 2
    with assms(2) show ?thesis by simp
  qed
qed

lemma no_sep_start_piece:
  assumes "no_sep_start sep cur s" and "sep \<noteq> []"
  shows "\<not> sublist sep cur"
proof
  assume "sublist sep cur"
  then obtain ps ss where cur: "cur = ps @ sep @ ss" by (auto simp: sublist_def)
  with assms(2) have "length ps < length cur" by simp
  moreover have "prefix sep (drop (length ps) cur @ s)" using cur by simp
  ultimately show False using assms(1) by (auto simp: no_sep_start_def)
qed

lemma split_acc_no_sep:
  "sep \<noteq> [] \<Longrightarrow> no_sep_start sep cur s \<Longrightarrow> p \<in> set (split_acc sep cur s) \<Longrightarrow> \<not> sublist sep p"
proof (induction sep cur s rule: split_acc.induct)
  case (1 sep cur)
  then show ?case by (auto dest: no_sep_start_piece)
next
  case (2 sep cur c cs)
  show ?case
  proof (cases "prefix sep (c # cs)")
    case True
    with "2.prems" "2.IH"(1) show ?thesis by (auto dest: no_sep_start_piece)
  next
    case False
    with "2.prems" "2.IH"(2) show ?thesis by (auto intro: no_sep_start_snoc)
  qed
qed

lemma split_acc_no_occurrence:
  "\<not> sublist sep x \<Longrightarrow> split_acc sep cur x = [cur @ x]"
proof (induction x arbitrary: cur)
  case (Cons c x)
  have "\<not> prefix sep (c # x)" using Cons.prems by (metis prefix_imp_sublist)
  moreover have "\<not> sublist sep x" using Cons.prems by (metis sublist_Cons_right)
  ultimately show ?case using Cons.IH by simp
qed simp

lemma split_acc_cut:
  assumes "sep \<noteq> []" and "\<not> sublist sep (x @ butlast sep)"
  shows "split_acc sep cur (x @ sep @ rest) = (cur @ x) # split_acc sep [] rest"
  using assms(2)
proof (induction x arbitrary: cur)
  case Nil
  from assms(1) obtain c cs where "sep = c # cs" by (cases sep) auto
  then show ?case by simp
next
  case (Cons c x)
  have "\<not> prefix sep (c # x @ sep @ rest)"
    using Cons.prems prefix_drop_append_sep [of sep 0 "c # x" rest] by auto
  moreover have "\<not> sublist sep (x @ butlast sep)"
    using Cons.prems by (metis append_Cons sublist_Cons_right)
  ultimately show ?case using Cons.IH by simp
qed

lemma not_sublist_appendD:
  "\<not> sublist sep (x @ ys) \<Longrightarrow> \<not> sublist sep x"
  by (metis sublist_append_rightI sublist_order.dual_order.trans)

lemma split_acc_js_join:
  assumes "sep \<noteq> []" and "\<forall>x\<in>set xs. \<not> sublist sep (x @ butlast sep)" and "xs \<noteq> []"
  shows "split_acc sep cur (js_join sep xs) = (cur @ hd xs) # tl xs"
  using assms(2,3)
proof (induction sep xs arbitrary: cur rule: js_join.induct)
  case (2 sep x)
  then show ?case by (simp add: split_acc_no_occurrence not_sublist_appendD)
next
  case (3 sep x y zs)
  then have rest: "split_acc sep [] (js_join sep (y # zs)) = y # zs" by simp
  have "split_acc sep cur (x @ sep @ js_join sep (y # zs)) =
      (cur @ x) # split_acc sep [] (js_join sep (y # zs))"
    using 3 assms(1) by (intro split_acc_cut) auto
  with rest show ?case by simp
qed simp

lemma js_split_split_acc: "sep \<noteq> [] \<Longrightarrow> js_split sep s = split_acc sep [] s"
  by (simp add: js_split_def)

lemma js_split_nonempty: "sep \<noteq> [] \<Longrightarrow> js_split sep s \<noteq> []"
  by (simp add: js_split_def split_acc_nonempty)

subsection \<open>Counting the pieces\<close>

text \<open>
  The scan cuts at the leftmost occurrence it meets, so it finds at least as
  many separators in a string as in any suffix of it, and skipping fewer code
  units than the separator is long loses at most one of them
  (\<open>split_acc_count_suffix\<close>, proved for both at once by induction on the
  length).  Hence a string joined from \<open>n\<close> parts splits into at least \<open>n\<close>
  pieces, whatever the parts contain (\<open>length_js_split_join\<close>).
\<close>

lemma length_split_acc_cur:
  "length (split_acc sep cur s) = length (split_acc sep cur' s)"
proof (induction sep cur s arbitrary: cur' rule: split_acc.induct)
  case (2 sep cur c cs)
  show ?case
  proof (cases "sep \<noteq> [] \<and> prefix sep (c # cs)")
    case True
    then show ?thesis by simp
  next
    case False
    then show ?thesis
      using "2.IH"(2) [OF False, of "cur' @ [c]"] by (simp only: split_acc.simps if_not_P [OF False] if_False)
  qed
qed simp

lemma split_acc_count_suffix:
  assumes "sep \<noteq> []"
  shows "(\<forall>z s'. w = z @ s' \<longrightarrow> length (split_acc sep [] s') \<le> length (split_acc sep [] w)) \<and>
         (\<forall>m \<le> length sep. length (split_acc sep [] w) \<le> Suc (length (split_acc sep [] (drop m w))))"
proof (induction w rule: length_induct)
  case (1 w)
  have IHD: "length (split_acc sep [] s') \<le> length (split_acc sep [] (z @ s'))"
    if "length (z @ s') < length w" for z s'
    using "1.IH" that by blast
  have IHE: "length (split_acc sep [] v) \<le> Suc (length (split_acc sep [] (drop m v)))"
    if "length v < length w" and "m \<le> length sep" for v m
    using "1.IH" that by blast
  show ?case
  proof (cases w)
    case Nil
    then show ?thesis by simp
  next
    case (Cons c cs)
    show ?thesis
    proof (cases "prefix sep w")
      case True
      let ?r = "drop (length sep) w"
      have N: "length (split_acc sep [] w) = Suc (length (split_acc sep [] ?r))"
        using True assms Cons by simp
      have short_r: "length ?r < length w" using assms Cons by simp
      have D: "length (split_acc sep [] s') \<le> length (split_acc sep [] w)"
        if "w = z @ s'" and "z \<noteq> []" for z s'
      proof (cases "length sep \<le> length z")
        case True
        then have r: "?r = drop (length sep) z @ s'" using that by simp
        have "length (split_acc sep [] s') \<le> length (split_acc sep [] (drop (length sep) z @ s'))"
          using IHD short_r unfolding r by simp
        then show ?thesis using N r by simp
      next
        case False
        have "length s' < length w" using that by simp
        moreover have "?r = drop (length sep - length z) s'" using that False by simp
        ultimately show ?thesis using IHE [of s' "length sep - length z"] N by simp
      qed
      have E: "length (split_acc sep [] w) \<le> Suc (length (split_acc sep [] (drop m w)))"
        if "m \<le> length sep" for m
      proof (cases m)
        case 0
        then show ?thesis by simp
      next
        case (Suc k)
        let ?v = "drop m w"
        have r': "?r = drop (length sep - m) ?v"
          using that by (simp add: drop_drop)
        have dm: "?v = take (length sep - m) ?v @ ?r"
          unfolding r' by (rule append_take_drop_id [symmetric])
        have "length ?v < length w" using Cons Suc by simp
        then have "length (split_acc sep [] ?r) \<le> length (split_acc sep [] ?v)"
          using IHD [of "take (length sep - m) ?v" ?r] dm by simp
        then show ?thesis using N by simp
      qed
      have "length (split_acc sep [] s') \<le> length (split_acc sep [] w)" if "w = z @ s'" for z s'
        using D [of z s'] that by (cases "z = []") simp_all
      then show ?thesis using E by blast
    next
      case False
      have "split_acc sep [] w = split_acc sep [c] cs"
        using False Cons by simp
      then have N: "length (split_acc sep [] w) = length (split_acc sep [] cs)"
        using length_split_acc_cur [of sep "[c]" cs "[]"] by simp
      have short: "length cs < length w" using Cons by simp
      have D: "length (split_acc sep [] s') \<le> length (split_acc sep [] w)" if "w = z @ s'" for z s'
      proof (cases z)
        case Nil
        then show ?thesis using that by simp
      next
        case (Cons c' z')
        then have "cs = z' @ s'" using that \<open>w = c # cs\<close> by simp
        then show ?thesis using IHD [of z' s'] short N by simp
      qed
      have E: "length (split_acc sep [] w) \<le> Suc (length (split_acc sep [] (drop m w)))"
        if "m \<le> length sep" for m
      proof (cases m)
        case 0
        then show ?thesis by simp
      next
        case (Suc k)
        then have "drop m w = drop k cs" using Cons by simp
        moreover have "k \<le> length sep" using that Suc by simp
        ultimately show ?thesis using IHE [of cs k] short N by simp
      qed
      show ?thesis using D E by blast
    qed
  qed
qed

lemma split_acc_count_sep:
  assumes "sep \<noteq> []"
  shows "Suc (length (split_acc sep [] y)) \<le> length (split_acc sep [] (x @ sep @ y))"
proof -
  have "length (split_acc sep [] (sep @ y)) = Suc (length (split_acc sep [] y))"
    using assms by (cases sep) simp_all
  moreover have "length (split_acc sep [] (sep @ y)) \<le> length (split_acc sep [] (x @ sep @ y))"
    using split_acc_count_suffix [OF assms, of "x @ sep @ y"] by blast
  ultimately show ?thesis by simp
qed

lemma length_js_split_join:
  assumes "sep \<noteq> []"
  shows "length xs \<le> length (js_split sep (js_join sep xs))"
proof (induction xs)
  case (Cons x xs)
  show ?case
  proof (cases xs)
    case Nil
    then show ?thesis using assms by (simp add: js_split_split_acc split_acc_nonempty Suc_le_eq)
  next
    case (Cons y ys)
    have "length xs \<le> length (split_acc sep [] (js_join sep xs))"
      using Cons.IH assms by (simp add: js_split_split_acc)
    moreover have "js_join sep (x # xs) = x @ sep @ js_join sep xs"
      using Cons by simp
    ultimately show ?thesis
      using split_acc_count_sep [OF assms, of "js_join sep xs" x] assms
      by (simp add: js_split_split_acc)
  qed
qed simp

subsection \<open>Properties of split\<close>

text \<open>
  C10: splitting a string and joining the pieces with the same (non-empty)
  separator gives the string back.
\<close>

theorem js_join_split: "sep \<noteq> [] \<Longrightarrow> js_join sep (js_split sep s) = s"
  by (simp add: js_split_def js_join_split_acc)

text \<open>
  C11: joining a non-empty list of strings and splitting the result on the same
  separator recovers the list, provided the separator occurs nowhere in a piece
  or across a piece's end (no piece contains it, none ends with a proper prefix of
  it that would combine with the separator into an earlier occurrence).
\<close>

theorem js_split_join:
  assumes "sep \<noteq> []" and "xs \<noteq> []"
    and "\<forall>x\<in>set xs. \<not> sublist sep (x @ butlast sep)"
  shows "js_split sep (js_join sep xs) = xs"
  using assms by (simp add: js_split_split_acc split_acc_js_join)

text \<open>C12: with a non-empty separator, no piece of a split contains the separator.\<close>

theorem js_split_no_sep:
  "sep \<noteq> [] \<Longrightarrow> p \<in> set (js_split sep s) \<Longrightarrow> \<not> sublist sep p"
  using split_acc_no_sep [of sep "[]" s p] by (auto simp: js_split_def split: if_splits)

text \<open>
  C26 (join as specified): the index loop of ECMA-262's \<open>Array.prototype.join\<close>,
  started with the empty string, computes \<open>js_join\<close>, the definition the
  handler's model uses for lines 23 and 60.
\<close>

theorem join_loop_eq: "join_loop sep xs 0 [] = js_join sep xs"
proof (cases xs)
  case Nil
  then show ?thesis by (simp add: join_loop.simps)
next
  case (Cons x xs')
  then show ?thesis using join_loop_drop [of 0 xs sep "[]"] by simp
qed

subsection \<open>Witnesses\<close>

theorem js_join_split_witness:
  "'' e '' \<noteq> [] \<and> js_join '' e '' (js_split '' e '' ''Gato e Cachorro'') = ''Gato e Cachorro''"
  using js_join_split [of "'' e ''" "''Gato e Cachorro''"] by simp

theorem js_split_join_witness:
  "js_split '' e '' (js_join '' e '' [''Gato'', ''Cachorro'']) = [''Gato'', ''Cachorro'']"
  by (rule js_split_join) (simp_all add: sublist_code)

theorem js_split_no_sep_witness:
  "''e b'' \<in> set (js_split '' e '' ''a e e b'') \<and> \<not> sublist '' e '' ''e b''"
proof -
  have p: "''e b'' \<in> set (js_split '' e '' ''a e e b'')" by (simp add: js_split_def)
  show ?thesis using js_split_no_sep [OF _ p] p by simp
qed

end
