(* ===== verification/Services.thy ===== *)
theory Services
  imports JsArray JsString
begin

text \<open>
  The interface between the handler and its collaborators (\<open>src/handler.js\<close>):
  the request and response shapes of the AWS Rekognition \<open>detectLabels\<close> and
  AWS Translate \<open>translateText\<close> calls, the \<open>Handler\<close> object holding the two
  service clients (constructor, lines 5--9), axios' \<open>get\<close> with
  \<open>responseType: 'arraybuffer'\<close>, and the Lambda proxy event and response.
  The services themselves are opaque: a client is a function from a request to
  a settled promise (\<open>Inr\<close> a response, \<open>Inl\<close> a rejection), so every theorem
  about the handler holds for every behaviour of AWS and of the network.  The
  observable effects of a run are the calls made, in order, and the console log.
\<close>

record label =
  Name :: string
  Confidence :: rat

record image =
  Bytes :: bytes

record detect_labels_request =
  Image :: image

record detect_labels_response =
  Labels :: "label list"

record translate_request =
  SourceLanguageCode :: string
  TargetLanguageCode :: string
  Text :: string

record translate_response =
  TranslatedText :: string

record handler =
  rekognitionService :: "detect_labels_request \<Rightarrow> js_error + detect_labels_response"
  translatorService :: "translate_request \<Rightarrow> js_error + translate_response"

record axios_response =
  data :: bytes

text \<open>\<open>get(url, {responseType: 'arraybuffer'})\<close>; \<open>None\<close> is an undefined URL.\<close>

type_synonym http_get = "string option \<Rightarrow> js_error + axios_response"

record event =
  queryStringParameters :: "(string \<rightharpoonup> string) option"

record response =
  statusCode :: int
  body :: string

datatype effect =
    Http_get "string option"
  | Detect_labels detect_labels_request
  | Translate_text translate_request
  | Console_log string

text \<open>
  \<open>console.log(a, b, ...)\<close> with string arguments writes them separated by
  single spaces (Node's \<open>util.format\<close>); the effect records the line.
\<close>

definition console_log :: "string list \<Rightarrow> effect" where
  "console_log args = Console_log (js_join '' '' args)"

lemma console_log_two [simp]: "console_log [a, b] = Console_log (a @ '' '' @ b)"
  by (simp add: console_log_def)

end
