(* ===== verification/Handler.thy ===== *)
theory Handler
  imports Services
begin

text \<open>
  The methods of class \<open>Handler\<close> in \<open>src/handler.js\<close>, one definition each, in
  the order of the source: \<open>detectImageLabels\<close> (lines 11--26),
  \<open>getImageBuffer\<close> (28--34), \<open>translateText\<close> (36--48),
  \<open>formatTranslatedText\<close> (50--61) and \<open>main\<close> (63--90).  Async methods
  return an \<open>io\<close> outcome (theory \<open>Prelude\<close>); every \<open>await\<close> of a service is
  an \<open>io_call\<close> that records the request.  \<open>main\<close> is split into its
  \<open>try\<close> block (\<open>main_try\<close>) and the catch-all around it.
\<close>

definition newline :: string where
  "newline = [CHR 0x0A]"

text \<open>Names for two shapes the properties mention.\<close>

abbreviation confident :: "label list \<Rightarrow> label list" where
  "confident labels \<equiv> filter (\<lambda>l. Confidence l > 80) labels"

abbreviation en_pt :: "string \<Rightarrow> translate_request" where
  "en_pt text \<equiv> \<lparr>SourceLanguageCode = ''en'', TargetLanguageCode = ''pt'', Text = text\<rparr>"

definition detectImageLabels :: "handler \<Rightarrow> bytes \<Rightarrow> (effect, string \<times> label list) io" where
  "detectImageLabels h buffer =
     (let req = \<lparr>Image = \<lparr>Bytes = buffer\<rparr>\<rparr> in
      io_bind (io_call (Detect_labels req) (rekognitionService h req)) (\<lambda>result.
        let workingItems = filter (\<lambda>l. Confidence l > 80) (Labels result);
            names = js_join '' and '' (map Name workingItems)
        in io_return (names, workingItems)))"

text \<open>
  \<open>Buffer.from(value, encoding)\<close>: for a Buffer or an ArrayBuffer (what axios
  resolves \<open>response.data\<close> to with \<open>responseType: 'arraybuffer'\<close>) Node copies
  the bytes and ignores the second argument; only a string argument is decoded.
\<close>

definition buffer_from :: "bytes \<Rightarrow> string \<Rightarrow> bytes" where
  "buffer_from value encoding = value"

definition getImageBuffer :: "http_get \<Rightarrow> string option \<Rightarrow> (effect, bytes) io" where
  "getImageBuffer get imageUrl =
     io_bind (io_call (Http_get imageUrl) (get imageUrl)) (\<lambda>response.
       io_return (buffer_from (data response) ''base64''))"

definition translateText :: "handler \<Rightarrow> string \<Rightarrow> (effect, string list) io" where
  "translateText h text =
     (let params = \<lparr>SourceLanguageCode = ''en'', TargetLanguageCode = ''pt'', Text = text\<rparr> in
      io_bind (io_call (Translate_text params) (translatorService h params)) (\<lambda>r.
        io_return (js_split '' e '' (TranslatedText r))))"

text \<open>
  The \<open>for (const indexText in texts)\<close> loop.  \<open>format_for_in\<close> is the loop as
  written: it visits the string keys of \<open>texts\<close> and reads both arrays through
  the key (theory \<open>JsArray\<close>); \<open>workingItems[indexText]\<close> is \<open>undefined\<close>
  past the end of \<open>workingItems\<close>, and reading \<open>.Confidence\<close> of it throws.
  \<open>format_loop\<close> is the same loop over the numeric index, the form the proofs
  use; the two agree (\<open>format_for_in_eq\<close>).
\<close>

definition undefined_confidence :: js_error where
  "undefined_confidence = TypeError ''Cannot read properties of undefined (reading 'Confidence')''"

function format_loop ::
  "string list \<Rightarrow> label list \<Rightarrow> nat \<Rightarrow> string list \<Rightarrow> (js_error + string list) option" where
  "format_loop texts workingItems i finalFormatedText =
     (if i < length texts then
        (if i < length workingItems then
           (case to_fixed 2 (Confidence (workingItems ! i)) of
              None \<Rightarrow> None
            | Some (Inl e) \<Rightarrow> Some (Inl e)
            | Some (Inr confidence) \<Rightarrow>
                format_loop texts workingItems (Suc i)
                  (finalFormatedText @ [confidence @ ''% de ser do tipo '' @ texts ! i]))
         else Some (Inl undefined_confidence))
      else Some (Inr finalFormatedText))"
  by pat_completeness auto
termination
  by (relation "measure (\<lambda>(texts, _, i, _). length texts - i)") auto

fun format_for_in ::
  "string list \<Rightarrow> label list \<Rightarrow> string list \<Rightarrow> string list \<Rightarrow> (js_error + string list) option" where
  "format_for_in texts workingItems [] finalFormatedText = Some (Inr finalFormatedText)"
| "format_for_in texts workingItems (indexText # keys) finalFormatedText =
     (let nameInPortuguese = (case array_get texts indexText of Some t \<Rightarrow> t | None \<Rightarrow> ''undefined'')
      in case array_get workingItems indexText of
           None \<Rightarrow> Some (Inl undefined_confidence)
         | Some item \<Rightarrow>
             (case to_fixed 2 (Confidence item) of
                None \<Rightarrow> None
              | Some (Inl e) \<Rightarrow> Some (Inl e)
              | Some (Inr confidence) \<Rightarrow>
                  format_for_in texts workingItems keys
                    (finalFormatedText @ [confidence @ ''% de ser do tipo '' @ nameInPortuguese])))"

definition formatTranslatedText :: "string list \<Rightarrow> label list \<Rightarrow> (js_error + string) option" where
  "formatTranslatedText texts workingItems =
     map_option (map_sum id (js_join newline)) (format_for_in texts workingItems (array_keys texts) [])"

definition query_imageUrl :: "event \<Rightarrow> js_error + string option" where
  "query_imageUrl event =
     (case queryStringParameters event of
        None \<Rightarrow> Inl (TypeError ''Cannot destructure property 'imageUrl' of 'event.queryStringParameters' as it is null.'')
      | Some params \<Rightarrow> Inr (params ''imageUrl''))"

definition main_try :: "http_get \<Rightarrow> handler \<Rightarrow> event \<Rightarrow> (effect, response) io" where
  "main_try get h event =
     io_bind (io_of_sum (query_imageUrl event)) (\<lambda>imageUrl.
     io_bind (getImageBuffer get imageUrl) (\<lambda>imageBuffer.
     io_bind (detectImageLabels h imageBuffer) (\<lambda>(names, workingItems).
     io_bind (translateText h names) (\<lambda>translatedText.
     io_bind (io_of_result (formatTranslatedText translatedText workingItems))
       (\<lambda>formatedTranslatedText.
          io_return \<lparr>statusCode = 200, body = ''A imagem tem '' @ newline @ formatedTranslatedText\<rparr>)))))"

definition error_response :: response where
  "error_response = \<lparr>statusCode = 500, body = ''Internal server error!''\<rparr>"

text \<open>
  Reference formatting (not code): the line the loop prints for a translated name
  and a label, and the text of a confidence below \<open>10^21\<close>.
\<close>

definition confidence_text :: "rat \<Rightarrow> string" where
  "confidence_text x = (case to_fixed 2 x of Some (Inr s) \<Rightarrow> s | _ \<Rightarrow> [])"

definition report_line :: "string \<Rightarrow> label \<Rightarrow> string" where
  "report_line t l = confidence_text (Confidence l) @ ''% de ser do tipo '' @ t"

definition main :: "http_get \<Rightarrow> handler \<Rightarrow> event \<Rightarrow> (effect, response) io" where
  "main get h event =
     io_catch (main_try get h event) (\<lambda>error.
       io_bind (io_call (console_log [''Error****'', js_error_stack error]) (Inr ())) (\<lambda>_.
         io_return error_response))"

subsection \<open>The methods, one call each\<close>

lemma getImageBuffer_eq:
  "getImageBuffer get url = Some ([Http_get url], map_sum id data (get url))"
  by (cases "get url") (simp_all add: getImageBuffer_def buffer_from_def io_call_def io_return_def)

lemma detectImageLabels_eq:
  "detectImageLabels h buffer =
     Some ([Detect_labels \<lparr>Image = \<lparr>Bytes = buffer\<rparr>\<rparr>],
       map_sum id
         (\<lambda>result. (js_join '' and '' (map Name (filter (\<lambda>l. 80 < Confidence l) (Labels result))),
                    filter (\<lambda>l. 80 < Confidence l) (Labels result)))
         (rekognitionService h \<lparr>Image = \<lparr>Bytes = buffer\<rparr>\<rparr>))"
  by (cases "rekognitionService h \<lparr>Image = \<lparr>Bytes = buffer\<rparr>\<rparr>")
     (simp_all add: detectImageLabels_def io_call_def io_return_def Let_def)

lemma translateText_eq:
  "translateText h text =
     Some ([Translate_text \<lparr>SourceLanguageCode = ''en'', TargetLanguageCode = ''pt'', Text = text\<rparr>],
       map_sum id (\<lambda>r. js_split '' e '' (TranslatedText r))
         (translatorService h \<lparr>SourceLanguageCode = ''en'', TargetLanguageCode = ''pt'', Text = text\<rparr>))"
  by (cases "translatorService h \<lparr>SourceLanguageCode = ''en'', TargetLanguageCode = ''pt'', Text = text\<rparr>")
     (simp_all add: translateText_def io_call_def io_return_def Let_def)

subsection \<open>The formatting loop\<close>

declare format_loop.simps [simp del]

lemma to_fixed_confidence_text:
  "\<bar>x\<bar> < 10 ^ 21 \<Longrightarrow> to_fixed 2 x = Some (Inr (confidence_text x))"
  using to_fixed_in_range [of 2 x] by (auto simp: confidence_text_def)

lemma confidence_text_chars:
  assumes "\<bar>x\<bar> < 10 ^ 21" and "c \<in> set (confidence_text x)"
  shows "is_digit c \<or> c = CHR ''.'' \<or> c = CHR ''-''"
proof -
  have "confidence_text x =
      (if x < 0 then ''-'' else '''') @ fixed_point_string 2 (nat (floor (\<bar>x\<bar> * 10 ^ 2 + 1 / 2)))"
    using assms(1) by (simp add: confidence_text_def to_fixed_eq)
  with assms(2) show ?thesis
    by (auto split: if_splits dest: fixed_point_string_chars [rotated])
qed

lemma newline_notin_report_line:
  assumes "\<bar>Confidence l\<bar> < 10 ^ 21" and "CHR 0x0A \<notin> set t"
  shows "CHR 0x0A \<notin> set (report_line t l)"
proof -
  have "\<not> is_digit (CHR 0x0A)" by (simp add: is_digit_def)
  then have "CHR 0x0A \<notin> set (confidence_text (Confidence l))"
    using confidence_text_chars [OF assms(1)] by force
  with assms(2) show ?thesis by (simp add: report_line_def)
qed

text \<open>
  The loop from index \<open>i\<close> on: it appends the reference lines of the remaining
  pairs when there are no more names than labels left, and throws otherwise.
\<close>

lemma format_loop_eq:
  assumes "\<forall>l\<in>set workingItems. \<bar>Confidence l\<bar> < 10 ^ 21"
  shows "format_loop texts workingItems i acc =
    Some (if length (drop i texts) \<le> length (drop i workingItems)
          then Inr (acc @ map2 report_line (drop i texts) (drop i workingItems))
          else Inl undefined_confidence)"
  using assms
proof (induction texts workingItems i acc rule: format_loop.induct)
  case (1 texts workingItems i acc)
  show ?case
  proof (cases "i < length texts")
    case texts: True
    show ?thesis
    proof (cases "i < length workingItems")
      case items: True
      then have "workingItems ! i \<in> set workingItems" by simp
      then have conf: "to_fixed 2 (Confidence (workingItems ! i)) =
          Some (Inr (confidence_text (Confidence (workingItems ! i))))"
        using "1.prems" by (intro to_fixed_confidence_text) blast
      have dt: "drop i texts = texts ! i # drop (Suc i) texts"
        using texts by (simp add: Cons_nth_drop_Suc)
      have di: "drop i workingItems = workingItems ! i # drop (Suc i) workingItems"
        using items by (simp add: Cons_nth_drop_Suc)
      show ?thesis
        using "1.IH" [OF texts items conf refl "1.prems"] texts items conf
        by (subst format_loop.simps) (simp add: dt di report_line_def)
    next
      case False
      with texts show ?thesis by (subst format_loop.simps) simp
    qed
  next
    case False
    then show ?thesis by (subst format_loop.simps) simp
  qed
qed

text \<open>The loop over the keys from position \<open>i\<close> on is the index loop from \<open>i\<close>.\<close>

lemma format_for_in_eq:
  "format_for_in texts workingItems (map decimal_digits [i..<length texts]) acc =
   format_loop texts workingItems i acc"
proof (induction texts workingItems i acc rule: format_loop.induct)
  case (1 texts workingItems i acc)
  show ?case
  proof (cases "i < length texts")
    case True
    then have "map decimal_digits [i..<length texts] = decimal_digits i # map decimal_digits [Suc i..<length texts]"
      by (simp add: upt_conv_Cons)
    with True "1.IH" show ?thesis
      by (subst format_loop.simps) (simp split: option.splits sum.splits)
  next
    case False
    then show ?thesis by (subst format_loop.simps) simp
  qed
qed

lemma formatTranslatedText_index:
  "formatTranslatedText texts workingItems =
     map_option (map_sum id (js_join newline)) (format_loop texts workingItems 0 [])"
  using format_for_in_eq [of texts workingItems 0 "[]"]
  by (simp add: formatTranslatedText_def array_keys_def)

text \<open>A loop that returns has printed the reference line of each pair it visited.\<close>

lemma format_loop_Inr:
  "format_loop texts workingItems i acc = Some (Inr out) \<Longrightarrow>
   length (drop i texts) \<le> length (drop i workingItems) \<and>
   out = acc @ map2 report_line (drop i texts) (drop i workingItems)"
proof (induction texts workingItems i acc rule: format_loop.induct)
  case (1 texts workingItems i acc)
  show ?case
  proof (cases "i < length texts")
    case texts: True
    show ?thesis
    proof (cases "i < length workingItems")
      case items: True
      then obtain c where conf: "to_fixed 2 (Confidence (workingItems ! i)) = Some (Inr c)"
        using "1.prems" texts
        by (subst (asm) format_loop.simps) (auto split: option.splits sum.splits)
      then have ct: "confidence_text (Confidence (workingItems ! i)) = c"
        by (simp add: confidence_text_def)
      have rec: "format_loop texts workingItems (Suc i) (acc @ [c @ ''% de ser do tipo '' @ texts ! i]) = Some (Inr out)"
        using "1.prems" texts items conf by (subst (asm) format_loop.simps) simp
      have dt: "drop i texts = texts ! i # drop (Suc i) texts"
        using texts by (simp add: Cons_nth_drop_Suc)
      have di: "drop i workingItems = workingItems ! i # drop (Suc i) workingItems"
        using items by (simp add: Cons_nth_drop_Suc)
      show ?thesis
        using "1.IH" [OF texts items conf refl rec] dt di ct by (simp add: report_line_def)
    next
      case False
      with texts "1.prems" show ?thesis by (subst (asm) format_loop.simps) simp
    qed
  next
    case False
    with "1.prems" show ?thesis by (subst (asm) format_loop.simps) simp
  qed
qed

lemma formatTranslatedText_Inr:
  "formatTranslatedText texts workingItems = Some (Inr s) \<Longrightarrow>
   length texts \<le> length workingItems \<and> s = js_join newline (map2 report_line texts workingItems)"
  using format_loop_Inr [of texts workingItems 0 "[]"]
  by (auto simp: formatTranslatedText_index)

subsection \<open>The request pipeline\<close>

text \<open>
  \<open>main_try\<close> flattened: the \<open>try\<close> block stops at the first step that throws,
  after the calls made so far.
\<close>

lemma main_try_eq:
  "main_try get h event =
    (case query_imageUrl event of
       Inl e \<Rightarrow> Some ([], Inl e)
     | Inr url \<Rightarrow>
       (case get url of
          Inl e \<Rightarrow> Some ([Http_get url], Inl e)
        | Inr resp \<Rightarrow>
          (case rekognitionService h \<lparr>Image = \<lparr>Bytes = data resp\<rparr>\<rparr> of
             Inl e \<Rightarrow> Some ([Http_get url, Detect_labels \<lparr>Image = \<lparr>Bytes = data resp\<rparr>\<rparr>], Inl e)
           | Inr result \<Rightarrow>
             (let items = filter (\<lambda>l. 80 < Confidence l) (Labels result);
                  params = \<lparr>SourceLanguageCode = ''en'', TargetLanguageCode = ''pt'',
                            Text = js_join '' and '' (map Name items)\<rparr>;
                  calls = [Http_get url, Detect_labels \<lparr>Image = \<lparr>Bytes = data resp\<rparr>\<rparr>, Translate_text params]
              in case translatorService h params of
                   Inl e \<Rightarrow> Some (calls, Inl e)
                 | Inr tr \<Rightarrow>
                   map_option
                     (\<lambda>r. (calls, map_sum id
                        (\<lambda>s. \<lparr>statusCode = 200, body = ''A imagem tem '' @ newline @ s\<rparr>) r))
                     (formatTranslatedText (js_split '' e '' (TranslatedText tr)) items)))))"
  by (simp add: main_try_def getImageBuffer_eq detectImageLabels_eq translateText_eq Let_def
      io_of_sum_def io_return_def option.map_comp o_def case_prod_beta'
      split: sum.splits option.splits)

lemma main_Inl:
  "main_try get h event = Some (t, Inl e) \<Longrightarrow>
   main get h event = Some (t @ [Console_log (''Error**** '' @ js_error_stack e)], Inr error_response)"
  by (simp add: main_def io_call_def io_return_def)

lemma main_Inr:
  "main_try get h event = Some (t, Inr r) \<Longrightarrow> main get h event = Some (t, Inr r)"
  by (simp add: main_def)

lemma main_None: "main_try get h event = None \<Longrightarrow> main get h event = None"
  by (simp add: main_def)

lemma main_try_Inr:
  assumes "main_try get h event = Some (t, Inr r)"
  shows "\<exists>s. r = \<lparr>statusCode = 200, body = ''A imagem tem '' @ newline @ s\<rparr>"
  using assms by (auto simp: main_try_eq Let_def split: sum.splits option.splits)

lemma main_try_translate_call:
  assumes "main_try get h event = Some (t, r)" and "Translate_text p \<in> set t"
  shows "SourceLanguageCode p = ''en'' \<and> TargetLanguageCode p = ''pt'' \<and>
    (\<exists>req result. rekognitionService h req = Inr result \<and>
       Text p = js_join '' and '' (map Name (filter (\<lambda>l. 80 < Confidence l) (Labels result))))"
  using assms by (force simp: main_try_eq Let_def split: sum.splits option.splits)

text \<open>Once the \<open>try\<close> block returns, \<open>main\<close> answers: the catch-all turns every error into a response.\<close>

lemma main_answers:
  assumes "main_try get h event \<noteq> None"
  shows "\<exists>t resp. main get h event = Some (t, Inr resp)"
proof -
  obtain t r where m: "main_try get h event = Some (t, r)"
    using assms by (cases "main_try get h event") auto
  show ?thesis
  proof (cases r)
    case (Inl e)
    with m show ?thesis by (auto dest: main_Inl)
  next
    case (Inr resp)
    with m show ?thesis by (auto dest: main_Inr)
  qed
qed

subsection \<open>Properties of the handler\<close>

text \<open>
  C1 (all or nothing): every run of \<open>main\<close> that stays in the model ends in one of
  two ways.  Either the \<open>try\<close> block threw an error \<open>e\<close> at some step, and the
  handler logs \<open>e\<close> once, after the calls already made, and answers exactly
  \<open>{statusCode: 500, body: 'Internal server error!'}\<close>; or the block completed,
  and the answer is status 200 with the body \<open>"A imagem tem \n"\<close> followed by the
  report.  No partial body is ever returned.
\<close>

theorem main_all_or_nothing:
  assumes "main get h event = Some (t, r)"
  shows "(\<exists>e t'. main_try get h event = Some (t', Inl e) \<and>
            t = t' @ [Console_log (''Error**** '' @ js_error_stack e)] \<and> r = Inr error_response) \<or>
         (\<exists>s. main_try get h event = Some (t, r) \<and>
            r = Inr \<lparr>statusCode = 200, body = ''A imagem tem '' @ newline @ s\<rparr>)"
proof (cases "main_try get h event")
  case None
  with assms show ?thesis by (simp add: main_None)
next
  case (Some p)
  then obtain t' r' where p: "main_try get h event = Some (t', r')" by (cases p) auto
  show ?thesis
  proof (cases r')
    case (Inl e)
    with p assms show ?thesis by (auto dest: main_Inl)
  next
    case (Inr resp)
    with p have m: "main_try get h event = Some (t', Inr resp)" by simp
    then have "main get h event = Some (t', Inr resp)" by (rule main_Inr)
    with assms have "t = t'" and "r = Inr resp" by simp_all
    moreover obtain s where "resp = \<lparr>statusCode = 200, body = ''A imagem tem '' @ newline @ s\<rparr>"
      using m main_try_Inr by blast
    ultimately show ?thesis using m by auto
  qed
qed

lemma main_try_detect_call:
  assumes "main_try get h event = Some (t, r)" and "Detect_labels req \<in> set t"
  shows "\<exists>url resp. query_imageUrl event = Inr url \<and> get url = Inr resp \<and>
    Bytes (detect_labels_request.Image req) = data resp"
  using assms by (force simp: main_try_eq Let_def split: sum.splits option.splits)

lemma filter_confident_in_range:
  assumes "\<forall>req result. rekognitionService h req = Inr result \<longrightarrow>
             (\<forall>l\<in>set (Labels result). \<bar>Confidence l\<bar> < 10 ^ 21)"
    and "rekognitionService h req = Inr result"
  shows "\<forall>l\<in>set (filter (\<lambda>l. 80 < Confidence l) (Labels result)). \<bar>Confidence l\<bar> < 10 ^ 21"
proof
  fix l assume "l \<in> set (filter (\<lambda>l. 80 < Confidence l) (Labels result))"
  then have "l \<in> set (Labels result)" by simp
  with assms show "\<bar>Confidence l\<bar> < 10 ^ 21" by blast
qed

lemma main_try_defined:
  assumes "\<forall>req result. rekognitionService h req = Inr result \<longrightarrow>
             (\<forall>l\<in>set (Labels result). \<bar>Confidence l\<bar> < 10 ^ 21)"
  shows "main_try get h event \<noteq> None"
proof -
  have "formatTranslatedText texts (filter (\<lambda>l. 80 < Confidence l) (Labels result)) \<noteq> None"
    if "rekognitionService h req = Inr result" for texts req result
    using filter_confident_in_range [OF assms that]
    by (simp add: formatTranslatedText_index format_loop_eq)
  then show ?thesis
    by (auto simp: main_try_eq Let_def split: sum.splits option.splits)
qed

lemma main_trace_cases:
  assumes "main get h event = Some (t, r)"
  obtains t' e where "main_try get h event = Some (t', Inl e)"
      and "t = t' @ [Console_log (''Error**** '' @ js_error_stack e)]"
    | "main_try get h event = Some (t, r)"
proof (cases "main_try get h event")
  case None
  with assms show ?thesis by (simp add: main_None)
next
  case (Some p)
  then obtain t' r' where m: "main_try get h event = Some (t', r')" by (cases p) auto
  show ?thesis
  proof (cases r')
    case (Inl e)
    with m assms that(1) show ?thesis by (auto dest: main_Inl)
  next
    case (Inr resp)
    with m assms that(2) show ?thesis by (auto dest: main_Inr)
  qed
qed

text \<open>
  C2 (the handler always answers): as long as the detection service reports
  confidences below \<open>10^21\<close> (it reports them in \<open>[0, 100]\<close>), every run of
  \<open>main\<close> returns a response, whatever the event, the network and the two
  services do: no exception escapes the handler.
\<close>

theorem main_responds:
  assumes "\<forall>req result. rekognitionService h req = Inr result \<longrightarrow>
             (\<forall>l\<in>set (Labels result). \<bar>Confidence l\<bar> < 10 ^ 21)"
  shows "\<exists>t resp. main get h event = Some (t, Inr resp)"
  using main_try_defined [OF assms] by (rule main_answers)

text \<open>
  C4 (the formatting loop against a reference): for confidences below \<open>10^21\<close>,
  \<open>formatTranslatedText\<close> is the newline-join of the reference lines of the pairs
  (name, label) taken position by position, when there are no more translated
  names than labels; with more names than labels it throws the TypeError of
  reading \<open>Confidence\<close> of \<open>undefined\<close>.  With fewer names than labels the
  trailing labels are silently left out of the report.
\<close>

theorem formatTranslatedText_eq:
  assumes "\<forall>l\<in>set workingItems. \<bar>Confidence l\<bar> < 10 ^ 21"
  shows "formatTranslatedText texts workingItems =
     Some (if length texts \<le> length workingItems
           then Inr (js_join newline (map2 report_line texts workingItems))
           else Inl undefined_confidence)"
  using assms by (simp add: formatTranslatedText_index format_loop_eq)

text \<open>
  C5 (no confident label means an error): when the detection service succeeds
  but reports no label above 80, the handler answers 500, whatever the
  translation service does: either it rejects the empty text, or its answer
  splits into at least one piece, and the first piece has no label to read the
  confidence of.
\<close>

theorem main_no_confident_label:
  assumes "queryStringParameters event = Some q" and "get (q ''imageUrl'') = Inr resp"
    and "rekognitionService h \<lparr>Image = \<lparr>Bytes = data resp\<rparr>\<rparr> = Inr result"
    and "\<forall>l\<in>set (Labels result). Confidence l \<le> 80"
  shows "\<exists>t. main get h event = Some (t, Inr error_response)"
proof -
  have items: "filter (\<lambda>l. 80 < Confidence l) (Labels result) = []"
    using assms(4) by (auto simp: filter_empty_conv)
  have fmt: "formatTranslatedText texts [] = Some (Inl undefined_confidence)"
    if "texts \<noteq> []" for texts
    using that by (simp add: formatTranslatedText_index format_loop_eq)
  have "\<exists>t e. main_try get h event = Some (t, Inl e)"
    using assms(1-3) items fmt [OF js_split_nonempty]
    by (auto simp: main_try_eq query_imageUrl_def Let_def split: sum.splits)
  then show ?thesis by (auto dest: main_Inl)
qed

text \<open>
  C7 (a rejected detection stops the pipeline): when the detection service
  rejects, the handler has fetched the image and called the detection service,
  then logs the error and answers 500; the translation service is never called.
\<close>

theorem main_detection_rejected:
  assumes "queryStringParameters event = Some q" and "get (q ''imageUrl'') = Inr resp"
    and "rekognitionService h \<lparr>Image = \<lparr>Bytes = data resp\<rparr>\<rparr> = Inl e"
  shows "main get h event =
    Some ([Http_get (q ''imageUrl''), Detect_labels \<lparr>Image = \<lparr>Bytes = data resp\<rparr>\<rparr>,
           Console_log (''Error**** '' @ js_error_stack e)], Inr error_response)"
proof -
  have "main_try get h event =
      Some ([Http_get (q ''imageUrl''), Detect_labels \<lparr>Image = \<lparr>Bytes = data resp\<rparr>\<rparr>], Inl e)"
    using assms by (simp add: main_try_eq query_imageUrl_def)
  then show ?thesis by (simp add: main_Inl)
qed

text \<open>
  C8 (a request without query parameters): when the event has no
  \<open>queryStringParameters\<close>, destructuring it throws a TypeError before any
  call; the handler logs it and answers 500.
\<close>

theorem main_missing_query:
  assumes "queryStringParameters event = None"
  shows "main get h event =
    Some ([Console_log (''Error**** TypeError: '' @
            ''Cannot destructure property 'imageUrl' of 'event.queryStringParameters' as it is null.'')],
          Inr error_response)"
proof -
  have "main_try get h event = Some ([], Inl (TypeError
      ''Cannot destructure property 'imageUrl' of 'event.queryStringParameters' as it is null.''))"
    using assms by (simp add: main_try_eq query_imageUrl_def)
  then show ?thesis by (simp add: main_Inl)
qed

text \<open>
  C9 (what is sent for translation): every translation request a run makes asks
  for English to Portuguese, and its text is the \<open>' and '\<close>-join of the names
  of the labels above 80 of a detection result, in the service's order; a label
  of confidence at most 80 is never sent.
\<close>

theorem main_translate_request:
  assumes "main get h event = Some (t, r)" and "Translate_text p \<in> set t"
  shows "SourceLanguageCode p = ''en'' \<and> TargetLanguageCode p = ''pt'' \<and>
    (\<exists>req result. rekognitionService h req = Inr result \<and>
       Text p = js_join '' and '' (map Name (filter (\<lambda>l. 80 < Confidence l) (Labels result))))"
  using assms(1)
proof (cases rule: main_trace_cases)
  case (1 t' e)
  with assms(2) show ?thesis by (auto dest: main_try_translate_call)
next
  case 2
  with assms(2) show ?thesis by (auto dest: main_try_translate_call)
qed

text \<open>
  C15 (the image is passed on unchanged): the bytes the handler sends to the
  detection service are exactly the bytes the HTTP request for the query's
  \<open>imageUrl\<close> returned; \<open>Buffer.from(data, 'base64')\<close> copies them.
\<close>

theorem main_detect_bytes:
  assumes "main get h event = Some (t, r)" and "Detect_labels req \<in> set t"
  shows "\<exists>url resp. query_imageUrl event = Inr url \<and> get url = Inr resp \<and>
    Bytes (detect_labels_request.Image req) = data resp"
  using assms(1)
proof (cases rule: main_trace_cases)
  case (1 t' e)
  with assms(2) show ?thesis by (auto dest: main_try_detect_call)
next
  case 2
  with assms(2) show ?thesis by (auto dest: main_try_detect_call)
qed

text \<open>
  C19 (the translated text decides the answer): once the image is fetched, the
  labels are detected and the translation is returned, the three calls have been
  made and the answer depends only on how many pieces the translation splits
  into on \<open>' e '\<close>.  With at most as many pieces as confident labels, the
  handler answers 200 with one line per piece, paired with the labels position
  by position (trailing labels are dropped silently); with more pieces, reading
  \<open>Confidence\<close> past the end of the labels throws a TypeError, which is logged,
  and the handler answers 500.
\<close>

theorem main_translated:
  assumes "queryStringParameters event = Some q" and "get (q ''imageUrl'') = Inr resp"
    and "rekognitionService h \<lparr>Image = \<lparr>Bytes = data resp\<rparr>\<rparr> = Inr result"
    and "translatorService h (en_pt (js_join '' and '' (map Name (confident (Labels result))))) = Inr tr"
    and "\<forall>l\<in>set (confident (Labels result)). \<bar>Confidence l\<bar> < 10 ^ 21"
  shows "main get h event =
    (let calls = [Http_get (q ''imageUrl''), Detect_labels \<lparr>Image = \<lparr>Bytes = data resp\<rparr>\<rparr>,
                  Translate_text (en_pt (js_join '' and '' (map Name (confident (Labels result)))))];
         pieces = js_split '' e '' (TranslatedText tr)
     in if length pieces \<le> length (confident (Labels result))
        then Some (calls, Inr \<lparr>statusCode = 200, body = ''A imagem tem '' @ newline @
               js_join newline (map2 report_line pieces (confident (Labels result)))\<rparr>)
        else Some (calls @ [Console_log (''Error**** '' @ js_error_stack undefined_confidence)],
               Inr error_response))"
proof -
  let ?items = "confident (Labels result)"
  let ?pieces = "js_split '' e '' (TranslatedText tr)"
  have fmt: "formatTranslatedText ?pieces ?items =
     Some (if length ?pieces \<le> length ?items
           then Inr (js_join newline (map2 report_line ?pieces ?items))
           else Inl undefined_confidence)"
    using assms(5) by (simp add: formatTranslatedText_index format_loop_eq)
  show ?thesis
  proof (cases "length ?pieces \<le> length ?items")
    case True
    with assms(1-4) fmt show ?thesis
      by (simp add: main_try_eq query_imageUrl_def Let_def main_Inr)
  next
    case False
    with assms(1-4) fmt show ?thesis
      by (simp add: main_try_eq query_imageUrl_def Let_def main_Inl)
  qed
qed

text \<open>
  C20 (a failed download stops the pipeline): when the HTTP request for the
  image fails, the handler has made that one request, logs the error and
  answers 500; neither service is called.
\<close>

theorem main_fetch_rejected:
  assumes "queryStringParameters event = Some q" and "get (q ''imageUrl'') = Inl e"
  shows "main get h event =
    Some ([Http_get (q ''imageUrl''), Console_log (''Error**** '' @ js_error_stack e)], Inr error_response)"
proof -
  have "main_try get h event = Some ([Http_get (q ''imageUrl'')], Inl e)"
    using assms by (simp add: main_try_eq query_imageUrl_def)
  then show ?thesis by (simp add: main_Inl)
qed

text \<open>
  C21 (a rejected translation stops the pipeline): when the translation service
  rejects, the handler has made all three calls, logs the error and answers
  500.
\<close>

theorem main_translate_rejected:
  assumes "queryStringParameters event = Some q" and "get (q ''imageUrl'') = Inr resp"
    and "rekognitionService h \<lparr>Image = \<lparr>Bytes = data resp\<rparr>\<rparr> = Inr result"
    and "translatorService h (en_pt (js_join '' and '' (map Name (confident (Labels result))))) = Inl e"
  shows "main get h event =
    Some ([Http_get (q ''imageUrl''), Detect_labels \<lparr>Image = \<lparr>Bytes = data resp\<rparr>\<rparr>,
           Translate_text (en_pt (js_join '' and '' (map Name (confident (Labels result))))),
           Console_log (''Error**** '' @ js_error_stack e)], Inr error_response)"
proof -
  have "main_try get h event =
    Some ([Http_get (q ''imageUrl''), Detect_labels \<lparr>Image = \<lparr>Bytes = data resp\<rparr>\<rparr>,
           Translate_text (en_pt (js_join '' and '' (map Name (confident (Labels result)))))], Inl e)"
    using assms by (simp add: main_try_eq query_imageUrl_def Let_def)
  then show ?thesis by (simp add: main_Inl)
qed

text \<open>
  C23 (the for-in loop is the index loop): iterating over the string keys of
  \<open>texts\<close> and reading \<open>texts[indexText]\<close> and \<open>workingItems[indexText]\<close>
  through them, as the code does, computes exactly what the loop over the
  numeric indices \<open>0, 1, \<dots>\<close> computes, from any accumulated output.
\<close>

theorem format_for_in_index:
  "format_for_in texts workingItems (array_keys texts) acc = format_loop texts workingItems 0 acc"
  using format_for_in_eq [of texts workingItems 0 acc] by (simp add: array_keys_def)

text \<open>
  C27 (only confident labels are reported): whatever the event, the network and
  the two services do, a 200 answer is \<open>"A imagem tem \n"\<close> followed by lines,
  joined by newlines, each the reference line of a translated piece and of a
  label the detection service returned with confidence above 80, in the
  service's order: a label of confidence at most 80 never reaches the report,
  and no label is printed twice or out of order.
\<close>

theorem main_report_confident:
  assumes "main get h event = Some (t, Inr r)" and "statusCode r = 200"
  shows "\<exists>req result pieces. rekognitionService h req = Inr result \<and>
    length pieces \<le> length (confident (Labels result)) \<and>
    body r = ''A imagem tem '' @ newline @ js_join newline (map2 report_line pieces (confident (Labels result)))"
  using assms(1)
proof (cases rule: main_trace_cases)
  case (1 t' e)
  then have "main get h event = Some (t' @ [Console_log (''Error**** '' @ js_error_stack e)], Inr error_response)"
    by (intro main_Inl) simp
  with assms(1) have "r = error_response" by simp
  with assms(2) show ?thesis by (simp add: error_response_def)
next
  case 2
  then show ?thesis
    by (auto simp: main_try_eq Let_def split: sum.splits option.splits dest!: formatTranslatedText_Inr) blast
qed

text \<open>
  C28 (a missing \<open>imageUrl\<close> is not an error of the handler): when the query
  string has no \<open>imageUrl\<close>, destructuring gives \<open>undefined\<close> without throwing,
  and every run starts with an HTTP request for the undefined URL; whether the
  request ends in 500 is up to axios.
\<close>

theorem main_missing_imageUrl:
  assumes "queryStringParameters event = Some q" and "q ''imageUrl'' = None"
    and "main get h event = Some (t, r)"
  shows "\<exists>t'. t = Http_get None # t'"
proof -
  have q: "query_imageUrl event = Inr None" using assms(1,2) by (simp add: query_imageUrl_def)
  have first: "\<exists>t'. t = Http_get None # t'" if "main_try get h event = Some (t, r')" for t r'
    using that q by (auto simp: main_try_eq Let_def split: sum.splits option.splits)
  from assms(3) show ?thesis
  proof (cases rule: main_trace_cases)
    case (1 t' e)
    then show ?thesis using first [of t'] by auto
  next
    case 2
    then show ?thesis by (rule first)
  qed
qed

end
