(* ===== verification/Pipeline.thy ===== *)
theory Pipeline
  imports Handler
begin

text \<open>
  The request orchestrator of \<open>main\<close> (\<open>src/handler.js\<close> lines 63--90) as a
  state machine, the reading of section 4.5 of the spec: a request moves through
  the stages of the \<open>try\<close> block (query read, image fetched, labels detected,
  text translated) to one of two terminal answers, and every failure goes
  through the single catch-all.  The state is the stage with the trace of
  effects so far; \<open>pstep\<close> has one rule per way an awaited step can settle.
  The theory shows that its runs are exactly the runs of \<open>main\<close>, what the
  trace of every reachable state looks like, and that no reachable state is
  stuck.
\<close>

datatype stage =
    Received event
  | Url "string option"
  | Image_buffer bytes
  | Labelled string "label list"
  | Translated "string list" "label list"
  | Failed js_error
  | Done response

type_synonym pstate = "stage \<times> effect list"

inductive pstep :: "http_get \<Rightarrow> handler \<Rightarrow> pstate \<Rightarrow> pstate \<Rightarrow> bool" for get h where
  parse_ok: "query_imageUrl ev = Inr url \<Longrightarrow> pstep get h (Received ev, t) (Url url, t)"
| parse_error: "query_imageUrl ev = Inl e \<Longrightarrow> pstep get h (Received ev, t) (Failed e, t)"
| fetch_ok: "get url = Inr resp \<Longrightarrow>
    pstep get h (Url url, t) (Image_buffer (buffer_from (data resp) ''base64''), t @ [Http_get url])"
| fetch_error: "get url = Inl e \<Longrightarrow> pstep get h (Url url, t) (Failed e, t @ [Http_get url])"
| detect_ok: "rekognitionService h \<lparr>Image = \<lparr>Bytes = buf\<rparr>\<rparr> = Inr result \<Longrightarrow>
    pstep get h (Image_buffer buf, t)
      (Labelled (js_join '' and '' (map Name (confident (Labels result)))) (confident (Labels result)),
       t @ [Detect_labels \<lparr>Image = \<lparr>Bytes = buf\<rparr>\<rparr>])"
| detect_error: "rekognitionService h \<lparr>Image = \<lparr>Bytes = buf\<rparr>\<rparr> = Inl e \<Longrightarrow>
    pstep get h (Image_buffer buf, t) (Failed e, t @ [Detect_labels \<lparr>Image = \<lparr>Bytes = buf\<rparr>\<rparr>])"
| translate_ok: "translatorService h (en_pt names) = Inr r \<Longrightarrow>
    pstep get h (Labelled names items, t)
      (Translated (js_split '' e '' (TranslatedText r)) items, t @ [Translate_text (en_pt names)])"
| translate_error: "translatorService h (en_pt names) = Inl e \<Longrightarrow>
    pstep get h (Labelled names items, t) (Failed e, t @ [Translate_text (en_pt names)])"
| format_ok: "formatTranslatedText texts items = Some (Inr s) \<Longrightarrow>
    pstep get h (Translated texts items, t)
      (Done \<lparr>statusCode = 200, body = ''A imagem tem '' @ newline @ s\<rparr>, t)"
| format_error: "formatTranslatedText texts items = Some (Inl e) \<Longrightarrow>
    pstep get h (Translated texts items, t) (Failed e, t)"
| catch: "pstep get h (Failed e, t)
    (Done error_response, t @ [Console_log (''Error**** '' @ js_error_stack e)])"

inductive reach :: "http_get \<Rightarrow> handler \<Rightarrow> event \<Rightarrow> pstate \<Rightarrow> bool" for get h ev where
  start: "reach get h ev (Received ev, [])"
| step: "reach get h ev s \<Longrightarrow> pstep get h s s' \<Longrightarrow> reach get h ev s'"

text \<open>The rest of the \<open>try\<close> block from each stage, as \<open>main\<close> runs it.\<close>

definition from_translated :: "string list \<Rightarrow> label list \<Rightarrow> (effect, response) io" where
  "from_translated texts items =
     io_bind (io_of_result (formatTranslatedText texts items)) (\<lambda>s.
       io_return \<lparr>statusCode = 200, body = ''A imagem tem '' @ newline @ s\<rparr>)"

definition from_labelled :: "handler \<Rightarrow> string \<Rightarrow> label list \<Rightarrow> (effect, response) io" where
  "from_labelled h names items = io_bind (translateText h names) (\<lambda>texts. from_translated texts items)"

definition from_image :: "handler \<Rightarrow> bytes \<Rightarrow> (effect, response) io" where
  "from_image h buf = io_bind (detectImageLabels h buf) (\<lambda>(names, items). from_labelled h names items)"

definition from_url :: "http_get \<Rightarrow> handler \<Rightarrow> string option \<Rightarrow> (effect, response) io" where
  "from_url get h url = io_bind (getImageBuffer get url) (\<lambda>buf. from_image h buf)"

definition catch_error :: "js_error \<Rightarrow> (effect, response) io" where
  "catch_error e =
     io_bind (io_call (console_log [''Error****'', js_error_stack e]) (Inr ())) (\<lambda>_.
       io_return error_response)"

fun finish :: "http_get \<Rightarrow> handler \<Rightarrow> stage \<Rightarrow> (effect, response) io" where
  "finish get h (Received ev) = main get h ev"
| "finish get h (Url url) = io_catch (from_url get h url) catch_error"
| "finish get h (Image_buffer buf) = io_catch (from_image h buf) catch_error"
| "finish get h (Labelled names items) = io_catch (from_labelled h names items) catch_error"
| "finish get h (Translated texts items) = io_catch (from_translated texts items) catch_error"
| "finish get h (Failed e) = catch_error e"
| "finish get h (Done r) = io_return r"

datatype call_kind = K_get | K_detect | K_translate | K_log

fun kind_of :: "effect \<Rightarrow> call_kind" where
  "kind_of (Http_get _) = K_get"
| "kind_of (Detect_labels _) = K_detect"
| "kind_of (Translate_text _) = K_translate"
| "kind_of (Console_log _) = K_log"

fun stage_rank :: "stage \<Rightarrow> nat" where
  "stage_rank (Received _) = 6"
| "stage_rank (Url _) = 5"
| "stage_rank (Image_buffer _) = 4"
| "stage_rank (Labelled _ _) = 3"
| "stage_rank (Translated _ _) = 2"
| "stage_rank (Failed _) = 1"
| "stage_rank (Done _) = 0"

text \<open>What the trace holds at each stage.\<close>

fun stage_trace :: "stage \<Rightarrow> call_kind list \<Rightarrow> bool" where
  "stage_trace (Received _) ks = (ks = [])"
| "stage_trace (Url _) ks = (ks = [])"
| "stage_trace (Image_buffer _) ks = (ks = [K_get])"
| "stage_trace (Labelled _ _) ks = (ks = [K_get, K_detect])"
| "stage_trace (Translated _ _) ks = (ks = [K_get, K_detect, K_translate])"
| "stage_trace (Failed _) ks = prefix ks [K_get, K_detect, K_translate]"
| "stage_trace (Done r) ks =
     ((ks = [K_get, K_detect, K_translate] \<and> statusCode r = 200) \<or>
      (\<exists>k. prefix k [K_get, K_detect, K_translate] \<and> ks = k @ [K_log] \<and> r = error_response))"

subsection \<open>The machine runs main\<close>

lemma main_stages:
  "main get h ev = io_catch (io_bind (io_of_sum (query_imageUrl ev)) (\<lambda>url. from_url get h url)) catch_error"
  unfolding main_def main_try_def from_url_def from_image_def from_labelled_def
    from_translated_def catch_error_def ..

lemma catch_error_eq:
  "catch_error e = Some ([Console_log (''Error**** '' @ js_error_stack e)], Inr error_response)"
  by (simp add: catch_error_def io_call_def io_return_def)

lemmas stage_simps = main_stages from_url_def from_image_def from_labelled_def from_translated_def
  getImageBuffer_eq detectImageLabels_eq translateText_eq catch_error_eq buffer_from_def io_return_def

text \<open>Each step of the machine consumes exactly the effects that \<open>main\<close> has at that point.\<close>

lemma pstep_finish:
  assumes "pstep get h (s, t) (s', t')"
  shows "io_after t (finish get h s) = io_after t' (finish get h s')"
  using assms by (cases rule: pstep.cases) (simp_all add: stage_simps)

lemma pstep_appends: "pstep get h (s, t) (s', t') \<Longrightarrow> \<exists>d. t' = t @ d"
  by (auto elim: pstep.cases)

lemma pstep_rank: "pstep get h (s, t) (s', t') \<Longrightarrow> stage_rank s' < stage_rank s"
  by (auto elim: pstep.cases)

lemma Done_terminal: "\<not> pstep get h (Done r, t) st"
  by (auto elim: pstep.cases)

lemma reach_finish:
  "reach get h ev st \<Longrightarrow> main get h ev = io_after (snd st) (finish get h (fst st))"
proof (induction rule: reach.induct)
  case start
  then show ?case by simp
next
  case (step st st')
  obtain s t s' t' where "st = (s, t)" and "st' = (s', t')" by (cases st; cases st')
  with step show ?case by (simp add: pstep_finish)
qed

lemma pstep_progress:
  assumes "stage_rank s \<noteq> 0" and "finish get h s \<noteq> None"
  shows "\<exists>st'. pstep get h (s, t) st'"
proof (cases s)
  case (Received ev)
  then show ?thesis
    by (cases "query_imageUrl ev") (auto intro: pstep.intros)
next
  case (Url url)
  then show ?thesis by (cases "get url") (auto intro: pstep.intros)
next
  case (Image_buffer buf)
  then show ?thesis
    by (cases "rekognitionService h \<lparr>Image = \<lparr>Bytes = buf\<rparr>\<rparr>") (auto intro: pstep.intros)
next
  case (Labelled names items)
  then show ?thesis
    by (cases "translatorService h (en_pt names)") (auto intro: pstep.intros)
next
  case (Translated texts items)
  with assms(2) obtain r where "formatTranslatedText texts items = Some r"
    by (cases "formatTranslatedText texts items") (auto simp: from_translated_def)
  with Translated show ?thesis by (cases r) (auto intro: pstep.intros)
next
  case (Failed e)
  then show ?thesis by (auto intro: pstep.intros)
next
  case (Done r)
  with assms(1) show ?thesis by simp
qed

text \<open>From a reachable state whose remaining run returns, the machine reaches that answer.\<close>

lemma reach_progress:
  "finish get h s = Some (u, Inr r) \<Longrightarrow> reach get h ev (s, t) \<Longrightarrow> reach get h ev (Done r, t @ u)"
proof (induction "stage_rank s" arbitrary: s t u rule: less_induct)
  case less
  show ?case
  proof (cases "stage_rank s = 0")
    case True
    then obtain r' where "s = Done r'" by (cases s) auto
    with less.prems show ?thesis by (simp add: io_return_def)
  next
    case False
    then obtain st' where st': "pstep get h (s, t) st'"
      using pstep_progress [of s get h t] less.prems(1) by auto
    obtain s' t' where st'_eq: "st' = (s', t')" by (cases st')
    then obtain d where t': "t' = t @ d" using st' pstep_appends by blast
    have "io_after t' (finish get h s') = io_after t (finish get h s)"
      using st' st'_eq pstep_finish by metis
    with less.prems(1) t' obtain u' where fin': "finish get h s' = Some (u', Inr r)"
      and u: "u = d @ u'"
      by (auto simp: io_after_eq_Some_iff)
    have "stage_rank s' < stage_rank s" using st' st'_eq pstep_rank by blast
    moreover have "reach get h ev (s', t')" using less.prems(2) st' st'_eq reach.step by blast
    ultimately have "reach get h ev (Done r, t' @ u')" using less.hyps fin' by blast
    with t' u show ?thesis by simp
  qed
qed

lemma pstep_stage_trace:
  "pstep get h (s, t) (s', t') \<Longrightarrow> stage_trace s (map kind_of t) \<Longrightarrow> stage_trace s' (map kind_of t')"
  by (auto elim!: pstep.cases)

subsection \<open>Properties of the pipeline\<close>

text \<open>
  C16 (the machine is the handler): \<open>main\<close> answers \<open>r\<close> after the effects \<open>t\<close>
  exactly when the state machine, started on the event with an empty trace,
  reaches the terminal state \<open>Done r\<close> with trace \<open>t\<close>.
\<close>

theorem main_iff_reach: "main get h ev = Some (t, Inr r) \<longleftrightarrow> reach get h ev (Done r, t)"
proof
  assume "main get h ev = Some (t, Inr r)"
  then have "finish get h (Received ev) = Some (t, Inr r)" by simp
  from reach_progress [OF this reach.start] show "reach get h ev (Done r, t)" by simp
next
  assume "reach get h ev (Done r, t)"
  from reach_finish [OF this] show "main get h ev = Some (t, Inr r)" by (simp add: io_return_def)
qed

text \<open>
  C17 (order of the calls): in every reachable state the calls made so far are a
  prefix of fetch, detect, translate, in this order and each at most once; a
  console log comes only at the very end, after a failure, and then the answer is
  the fixed 500 response; an answer of status 200 follows exactly the three calls.
\<close>

theorem reach_stage_trace: "reach get h ev (s, t) \<Longrightarrow> stage_trace s (map kind_of t)"
proof (induction "(s, t)" arbitrary: s t rule: reach.induct)
  case start
  then show ?case by simp
next
  case (step st)
  obtain s0 t0 where "st = (s0, t0)" by (cases st)
  with step show ?case by (auto intro: pstep_stage_trace)
qed

text \<open>
  C18 (every run completes): when the detection service reports confidences below
  \<open>10^21\<close>, every reachable state of the machine leads on to a terminal answer;
  no state short of \<open>Done\<close> is stuck.
\<close>

theorem reach_completes:
  assumes "\<forall>req result. rekognitionService h req = Inr result \<longrightarrow>
             (\<forall>l\<in>set (Labels result). \<bar>Confidence l\<bar> < 10 ^ 21)"
    and "reach get h ev (s, t)"
  shows "\<exists>r u. reach get h ev (Done r, t @ u)"
proof -
  obtain t' resp where m: "main get h ev = Some (t', Inr resp)"
    using main_answers [OF main_try_defined [OF assms(1)]] by blast
  have "main get h ev = io_after t (finish get h s)"
    using reach_finish [OF assms(2)] by simp
  with m obtain u where "finish get h s = Some (u, Inr resp)"
    by (auto simp: io_after_eq_Some_iff)
  from reach_progress [OF this assms(2)] show ?thesis by blast
qed

end
