(* ===== verification/Module.thy ===== *)
theory Module
  imports Handler
begin

text \<open>
  The factory at the end of \<open>src/handler.js\<close> (lines 93--105): the module's top
  level creates one Rekognition client and one Translate client, builds one
  \<open>Handler\<close> around them and exports \<open>handler.main.bind(handler)\<close>.  Node
  evaluates a module's top level once per process; the Lambda runtime loads
  the module on the first invocation of a process (a cold start) and calls the
  exported function for that and every later event the process receives.  The
  AWS clients are parameters, as in theory \<open>Services\<close>: any behaviour of the
  services is allowed.  \<open>bind\<close> fixes \<open>this\<close> to the instance, which is the
  handler argument of \<open>main\<close>.
\<close>

type_synonym rekognition_client = "detect_labels_request \<Rightarrow> js_error + detect_labels_response"
type_synonym translate_client = "translate_request \<Rightarrow> js_error + translate_response"
type_synonym lambda_main = "event \<Rightarrow> (effect, response) io"

text \<open>Lines 94--105: \<open>module.exports.main\<close> after the top level has run.\<close>

definition load_module :: "http_get \<Rightarrow> rekognition_client \<Rightarrow> translate_client \<Rightarrow> lambda_main" where
  "load_module get rekognition translator =
     (let handler = \<lparr>rekognitionService = rekognition, translatorService = translator\<rparr>
      in main get handler)"

text \<open>A process of the Lambda runtime: before or after its module has been loaded.\<close>

datatype process = Cold | Warm lambda_main

text \<open>One invocation: a cold process loads the module first, then the exported \<open>main\<close> runs.\<close>

fun invoke ::
  "http_get \<Rightarrow> rekognition_client \<Rightarrow> translate_client \<Rightarrow> process \<Rightarrow> event \<Rightarrow>
   process \<times> (effect, response) io" where
  "invoke get rekognition translator Cold ev =
     (let exported = load_module get rekognition translator in (Warm exported, exported ev))"
| "invoke get rekognition translator (Warm exported) ev = (Warm exported, exported ev)"

text \<open>A process serving a sequence of events one after another.\<close>

fun serve ::
  "http_get \<Rightarrow> rekognition_client \<Rightarrow> translate_client \<Rightarrow> process \<Rightarrow> event list \<Rightarrow>
   process \<times> (effect, response) io list" where
  "serve get rekognition translator p [] = (p, [])"
| "serve get rekognition translator p (ev # evs) =
     (let (p', r) = invoke get rekognition translator p ev;
          (p'', rs) = serve get rekognition translator p' evs
      in (p'', r # rs))"

lemma serve_Warm:
  "serve get rekognition translator (Warm exported) evs = (Warm exported, map exported evs)"
  by (induction evs) simp_all

lemma serve_Cold_responses:
  "snd (serve get rekognition translator Cold evs) =
     map (main get \<lparr>rekognitionService = rekognition, translatorService = translator\<rparr>) evs"
  by (cases evs) (simp_all add: serve_Warm load_module_def Let_def)

end
