(* ===== verification/JsSplitIndex.thy ===== *)
theory JsSplitIndex
  imports JsString
begin

text \<open>
  \<open>String.prototype.split\<close> as the current edition of ECMA-262 (\<section>22.1.3.23)
  states it: instead of testing the separator at every position
  (\<open>SplitMatch\<close>, the loop \<open>split_acc\<close> of theory \<open>JsString\<close>), it jumps from one
  occurrence to the next with \<open>StringIndexOf\<close> (\<section>6.1.4.1).  The two
  formulations compute the same pieces (\<open>js_split_indexof_eq\<close>).
\<close>

text \<open>\<open>StringIndexOf(s, sep, i)\<close>: the least position \<open>k \<ge> i\<close> where \<open>sep\<close> occurs; \<open>None\<close> is \<open>-1\<close>.\<close>

definition string_index_of :: "string \<Rightarrow> string \<Rightarrow> nat \<Rightarrow> nat option" where
  "string_index_of s sep i = find (\<lambda>k. prefix sep (drop k s)) [i..<Suc (length s) - length sep]"

text \<open>Steps 13--17: from position \<open>i\<close>, cut at the next occurrence and go on after it.\<close>

function split_from :: "string \<Rightarrow> string \<Rightarrow> nat \<Rightarrow> string list" where
  "split_from sep s i =
     (if sep = [] then [drop i s]
      else case string_index_of s sep i of
             None \<Rightarrow> [drop i s]
           | Some j \<Rightarrow> take (j - i) (drop i s) # split_from sep s (j + length sep))"
  by pat_completeness auto
termination
proof (relation "measure (\<lambda>(sep, s, i). Suc (length s) - i)")
  fix sep s i j
  assume "sep \<noteq> []" and "string_index_of s sep i = Some j"
  then obtain n where "n < Suc (length s) - length sep - i" and "j = i + n"
    by (auto simp: string_index_of_def find_Some_iff)
  with \<open>sep \<noteq> []\<close> show "((sep, s, j + length sep), sep, s, i) \<in> measure (\<lambda>(sep, s, i). Suc (length s) - i)"
    by (cases sep) auto
qed simp

definition js_split_indexof :: "string \<Rightarrow> string \<Rightarrow> string list" where
  "js_split_indexof sep s =
     (if sep = [] then map (\<lambda>c. [c]) s
      else if s = [] then [s]
      else split_from sep s 0)"

subsection \<open>Index search\<close>

lemma string_index_of_Some:
  assumes "string_index_of s sep i = Some j"
  shows "i \<le> j" and "j + length sep \<le> length s" and "prefix sep (drop j s)"
    and "\<And>k. i \<le> k \<Longrightarrow> k < j \<Longrightarrow> \<not> prefix sep (drop k s)"
proof -
  obtain n where n: "n < Suc (length s) - length sep - i" and j: "j = i + n"
    and P: "prefix sep (drop j s)"
    and before: "\<And>m. m < n \<Longrightarrow> \<not> prefix sep (drop (i + m) s)"
    using assms by (auto simp: string_index_of_def find_Some_iff)
  show "i \<le> j" using j by simp
  show "j + length sep \<le> length s" using n j by simp
  show "prefix sep (drop j s)" by (rule P)
  fix k assume "i \<le> k" and "k < j"
  then show "\<not> prefix sep (drop k s)" using before [of "k - i"] j by simp
qed

lemma prefix_drop_length:
  assumes "prefix sep (drop k s)" and "sep \<noteq> []" shows "k + length sep \<le> length s"
  using prefix_length_le [OF assms(1)] assms(2) by (cases "k \<le> length s") auto

lemma string_index_of_None:
  assumes "string_index_of s sep i = None" and "i \<le> k" and "sep \<noteq> []"
  shows "\<not> prefix sep (drop k s)"
proof
  assume P: "prefix sep (drop k s)"
  then have "k < Suc (length s) - length sep" using prefix_drop_length [OF P assms(3)] by simp
  then have "k \<in> set [i..<Suc (length s) - length sep]" using assms(2) by simp
  then show False using assms(1) P by (auto simp: string_index_of_def find_None_iff)
qed

declare split_from.simps [simp del]

subsection \<open>The scan between two occurrences\<close>

lemma split_acc_skip:
  assumes "\<And>k. k < n \<Longrightarrow> \<not> prefix sep (drop k t)" and "n \<le> length t"
  shows "split_acc sep cur t = split_acc sep (cur @ take n t) (drop n t)"
  using assms
proof (induction n arbitrary: cur t)
  case (Suc n)
  then obtain c cs where t: "t = c # cs" by (cases t) auto
  have "\<not> prefix sep (c # cs)" using Suc.prems(1) [of 0] t by simp
  then have "split_acc sep cur t = split_acc sep (cur @ [c]) cs" using t by simp
  also have "\<dots> = split_acc sep (cur @ [c] @ take n cs) (drop n cs)"
    using Suc.IH [of cs "cur @ [c]"] Suc.prems t by fastforce
  finally show ?case using t by simp
qed simp

lemma split_acc_from:
  "sep \<noteq> [] \<Longrightarrow> split_acc sep [] (drop i s) = split_from sep s i"
proof (induction sep s i rule: split_from.induct)
  case (1 sep s i)
  show ?case
  proof (cases "string_index_of s sep i")
    case None
    have "split_acc sep [] (drop i s) = split_acc sep (take (length (drop i s)) (drop i s)) []"
      using string_index_of_None [OF None _ "1.prems"]
      by (subst split_acc_skip [where n = "length (drop i s)"]) auto
    then show ?thesis using None "1.prems" by (subst split_from.simps) simp
  next
    case (Some j)
    note occ = string_index_of_Some [OF Some]
    have skip: "split_acc sep [] (drop i s) = split_acc sep (take (j - i) (drop i s)) (drop j s)"
    proof (subst split_acc_skip [where n = "j - i"])
      show "\<not> prefix sep (drop k (drop i s))" if "k < j - i" for k
        using occ(4) [of "i + k"] that by (simp add: add.commute)
      show "j - i \<le> length (drop i s)" using occ(2) by simp
      show "split_acc sep ([] @ take (j - i) (drop i s)) (drop (j - i) (drop i s)) =
          split_acc sep (take (j - i) (drop i s)) (drop j s)"
        using occ(1) by simp
    qed
    obtain c cs where cs: "drop j s = c # cs"
      using occ(3) "1.prems" by (cases "drop j s") auto
    have "split_acc sep (take (j - i) (drop i s)) (drop j s) =
        take (j - i) (drop i s) # split_acc sep [] (drop (j + length sep) s)"
    proof -
      have "drop (length sep) (drop j s) = drop (j + length sep) s" by (simp add: add.commute)
      then show ?thesis using occ(3) "1.prems" cs by simp
    qed
    also have "split_acc sep [] (drop (j + length sep) s) = split_from sep s (j + length sep)"
      by (rule "1.IH" [OF "1.prems" Some "1.prems"])
    finally show ?thesis using skip Some "1.prems" by (subst split_from.simps) simp
  qed
qed

subsection \<open>The two editions agree\<close>

text \<open>
  C24 (split by index search is split by scanning): for every separator and
  every string, the \<open>StringIndexOf\<close> formulation of \<open>split\<close> gives the same
  pieces as the position-by-position scan the handler's model uses.
\<close>

theorem js_split_indexof_eq: "js_split_indexof sep s = js_split sep s"
  using split_acc_from [of sep 0 s] by (simp add: js_split_indexof_def js_split_def)

end
