(* ===== verification/Spec2Isabelle.thy ===== *)
theory Spec2Isabelle
  imports Pipeline Module JsSplitIndex
begin

text \<open>
  \<^bold>\<open>A verification development for \<open>src/handler.js\<close>\<close> (an AWS Lambda handler that
  labels an image and reports the labels in Portuguese).

  \<^bold>\<open>The program.\<close>  One class, \<open>Handler\<close>, holds two service clients (AWS Rekognition
  and AWS Translate, constructor lines 5--9).  Its \<open>main\<close> (lines 63--90) reads
  \<open>imageUrl\<close> from the query string, downloads the image with axios
  (\<open>getImageBuffer\<close>, 28--34), asks Rekognition for labels and keeps those of
  confidence above 80, joining their names with \<open>' and '\<close>
  (\<open>detectImageLabels\<close>, 11--26), translates the joined text from English to
  Portuguese and splits the answer on \<open>' e '\<close> (\<open>translateText\<close>, 36--48), and
  prints one line per translated name with the confidence of the label at the
  same position (\<open>formatTranslatedText\<close>, 50--61).  Every step is awaited in
  turn; one \<open>try/catch\<close> turns any exception into a logged error and the fixed
  response \<open>{statusCode: 500, body: 'Internal server error!'}\<close>.

  \<^bold>\<open>The theories.\<close>
  \<^item> \<open>Prelude\<close>: bytes as \<open>8 word list\<close>, the JavaScript errors (\<open>js_error\<close>:
    TypeError, RangeError, a rejected promise), and the effect-trace monad \<open>io\<close>
    that models an async function: \<open>Some (t, Inr a)\<close> resolves to \<open>a\<close> after the
    effects \<open>t\<close>, \<open>Some (t, Inl e)\<close> rejects with \<open>e\<close>, \<open>None\<close> leaves the modelled
    fragment of JavaScript.  \<open>io_bind\<close> is \<open>await\<close>, \<open>io_catch\<close> is
    \<open>try/catch\<close>, \<open>io_call\<close> is a call to a collaborator (recorded in the trace).
  \<^item> \<open>JsString\<close>: \<open>Array.prototype.join\<close> (\<open>js_join\<close>) and
    \<open>String.prototype.split\<close> with a string separator (\<open>js_split\<close>, its scanning
    loop \<open>split_acc\<close>), after ECMA-262; \<open>join_loop\<close> is \<open>join\<close> in the
    standard's own index-loop form.
  \<^item> \<open>JsSplitIndex\<close>: \<open>split\<close> as the current edition of ECMA-262 states it,
    jumping between occurrences with \<open>StringIndexOf\<close> (\<open>string_index_of\<close>,
    \<open>split_from\<close>, \<open>js_split_indexof\<close>).
  \<^item> \<open>JsNumber\<close>: \<open>Number.prototype.toFixed\<close> (\<open>to_fixed\<close>) on the exact rational
    value of a double, with its digit string (\<open>decimal_digits\<close>) and the
    zero-padding and point placement (\<open>fixed_point_string\<close>).
  \<^item> \<open>JsArray\<close>: arrays read through string property keys, as \<open>for-in\<close> reads
    them: the keys it visits (\<open>array_keys\<close>), the index a key denotes
    (\<open>array_index\<close>) and \<open>a[key]\<close> (\<open>array_get\<close>).
  \<^item> \<open>Services\<close>: the records of the Rekognition and Translate requests and
    responses, the \<open>handler\<close> record of the two clients, axios' response,
    the Lambda event and response, and the \<open>effect\<close>s a run can have (a call to
    one of the three collaborators, a console log).  A client is any function
    from a request to a settled promise: every theorem holds for every behaviour
    of AWS and of the network.
  \<^item> \<open>Handler\<close>: one definition per method (\<open>detectImageLabels\<close>,
    \<open>getImageBuffer\<close> with Node's \<open>buffer_from\<close>, \<open>translateText\<close>,
    \<open>formatTranslatedText\<close> over the \<open>for-in\<close> loop \<open>format_for_in\<close>, proved
    equal to the index loop \<open>format_loop\<close> the proofs use, and \<open>main\<close> as the
    catch-all around \<open>main_try\<close>), the flattened pipeline \<open>main_try_eq\<close>, and
    the properties of the handler.
  \<^item> \<open>Pipeline\<close>: the orchestrator of section 4.5 of the spec as an inductive
    step relation \<open>pstep\<close> over the stages of the \<open>try\<close> block
    (\<open>Received\<close>, \<open>Url\<close>, \<open>Image_buffer\<close>, \<open>Labelled\<close>, \<open>Translated\<close>) and the
    two ends \<open>Failed\<close> (the catch-all) and \<open>Done\<close>, each state carrying its trace;
    \<open>reach\<close> is the set of states a request can get to.  \<open>finish\<close> gives, for
    each stage, the rest of \<open>main\<close> from there (\<open>from_url\<close>, \<open>from_image\<close>,
    \<open>from_labelled\<close>, \<open>from_translated\<close>, \<open>catch_error\<close>); a step
    preserves \<open>main = io_after t (finish s)\<close> (\<open>pstep_finish\<close>, a simulation), and
    a state whose rest returns reaches \<open>Done\<close> (\<open>reach_progress\<close>, by
    induction on \<open>stage_rank\<close>).
  \<^item> \<open>Module\<close>: the factory (lines 93--105) as \<open>load_module\<close>, the exported
    \<open>main\<close> bound to the one \<open>Handler\<close> built around the two clients, and the
    Lambda runtime's use of it: a process loads the module on its first event
    (\<open>invoke\<close>) and serves the following ones with it (\<open>serve\<close>).  Since
    \<open>serve\<close> answers each event with the exported function by construction
    (\<open>serve_Cold_responses\<close>), every property of \<open>main\<close> carries over to each
    request of a process; no separate claim is made about it.
  \<^item> this theory: the intended report (\<open>intended_report\<close>), the end-to-end
    refinement and line-count theorems, the scenarios of the spec (section 8) and
    the witnesses.

  \<^bold>\<open>What is proved.\<close>  The handler never returns a partial body: a run either
  answers 200 with \<open>"A imagem tem \n"\<close> and the report, or logs the error once and
  answers exactly the fixed 500 response (C1); it always answers (C2); when the
  translation service translates word by word, the answer is the intended report
  and exactly three calls are made (C3); the formatting loop equals a position-wise
  reference and throws when there are more names than labels (C4); a detection
  with no label above 80 always ends in 500 (C5); the report has one line per
  name (C6); failures stop the pipeline before the next call (C7, C8); the
  translation request is always English to Portuguese over confident labels only
  (C9); split and join are inverse under the stated conditions and no piece
  contains the separator (C10--C12); \<open>toFixed\<close> prints exactly the requested
  number of decimals and rounds to within half a unit of the last place
  (C13, C14); the image reaches Rekognition unchanged (C15).  The state machine
  reaches \<open>Done r\<close> with trace \<open>t\<close> exactly when \<open>main\<close> answers \<open>r\<close> after
  \<open>t\<close> (C16); in every reachable state the calls so
  far are a prefix of fetch, detect, translate, and a log only ends a failed run
  (C17, by rule induction over \<open>reach\<close>); no reachable state is stuck (C18).
  Once the translation is back, the number of \<open>' e '\<close>-pieces alone decides the
  answer: at most as many as labels gives 200 with the position-wise lines,
  more gives the TypeError and 500 (C19); a failed download or a rejected
  translation stops the pipeline with exactly the calls made so far (C20, C21).
  A word-by-word translation never loses a label: the scan of \<open>split\<close> finds at
  least one piece per joined name (\<open>JsString.length_js_split_join\<close>, from the
  greedy-scan lemma \<open>split_acc_count_suffix\<close>), so the answer is 500 or has
  one line per confident label (C22).  The \<open>for-in\<close> loop over the string keys
  computes what the index loop computes (C23), because the key \<open>for-in\<close> makes
  for index \<open>n\<close> reads back as \<open>n\<close> (\<open>JsArray.array_index_decimal_digits\<close>).
  The runtime primitives agree with
  the other forms of their specification: \<open>split\<close> by index search is \<open>split\<close>
  by scanning (C24), \<open>toFixed\<close> picks the integer nearest to \<open>x * 10^f\<close>, the
  larger one on a tie, as ECMA-262 asks (C25), and the standard's \<open>join\<close> loop
  is \<open>js_join\<close> (C26).  For every behaviour of the collaborators, a 200 answer
  reports only labels above 80, each once and in the service's order (C27).
  A query without \<open>imageUrl\<close>
  is not rejected by the handler: every run then starts by fetching the
  undefined URL, so its 500 comes from axios, not from the destructuring the
  spec names (C28, recorded as a finding).

  \<^bold>\<open>Bounds.\<close>  No loop of the handler needs fuel: \<open>format_loop\<close> terminates by the
  measure \<open>length texts - i\<close>, \<open>format_for_in\<close> and \<open>split_acc\<close> by structural
  descent, \<open>decimal_digits\<close> by the quotient.  The one partiality is \<open>toFixed\<close> on magnitudes of at least \<open>10^21\<close>,
  where JavaScript prints the shortest round-trip representation of the double;
  the model returns \<open>None\<close> there, and C2 assumes the confidences stay below it
  (Rekognition reports them in \<open>[0, 100]\<close>).

  \<^bold>\<open>Not modelled.\<close>  The AWS services, the aws-sdk client constructors of the
  factory and axios are parameters, not models; the \<open>limit\<close> of \<open>split\<close>
  (\<open>2^32 - 1\<close> pieces) and the same bound on array indices are never reached by
  strings of this size; strings are sequences of UTF-16 code units, modelled as
  \<open>char\<close> lists; \<open>console.log\<close> is modelled with its two arguments joined by a
  space (\<open>console_log\<close>), but of \<open>error.stack\<close> only the first line, since the
  stack frames V8 appends depend on the deployment, so console logging is
  modelled in part; \<open>for-in\<close> is modelled on arrays whose prototype chain has
  no enumerable property, as in Node with the handler's dependencies.  The spec (4.1) reads \<open>Buffer.from(data,
  'base64')\<close> as a base64 decoder; that is the spec's reading, not code: Node
  copies a Buffer argument and ignores the encoding, which \<open>buffer_from\<close>
  models and C15 states, and the divergence is recorded as a finding.
\<close>

section \<open>The contract of the pipeline\<close>

text \<open>
  The report the handler is meant to produce (spec, sections 3 and 4.4): one
  line per label of confidence above 80, in the order of the detection service,
  each with the label's own confidence to two decimals and the translation of
  the label's own name.
\<close>

definition intended_report :: "(string \<Rightarrow> string) \<Rightarrow> label list \<Rightarrow> string" where
  "intended_report tr labels =
     js_join newline (map (\<lambda>l. report_line (tr (Name l)) l) (confident labels))"

section \<open>Scenarios\<close>

text \<open>The scenarios of the spec, section 8, as concrete inputs.\<close>

definition example_url :: string where
  "example_url = ''https://example.com/cat.png''"

definition example_event :: event where
  "example_event = \<lparr>queryStringParameters = Some [''imageUrl'' \<mapsto> example_url]\<rparr>"

definition example_image :: bytes where
  "example_image = [0x89, 0x50, 0x4E, 0x47]"

definition example_get :: http_get where
  "example_get url =
     (if url = Some example_url then Inr \<lparr>data = example_image\<rparr>
      else Inl (Rejected ''AxiosError: Request failed with status code 404''))"

definition cat_and_dog :: "label list" where
  "cat_and_dog = [\<lparr>Name = ''Cat'', Confidence = 191 / 2\<rparr>, \<lparr>Name = ''Dog'', Confidence = 60\<rparr>]"

definition cat_dog_both :: "label list" where
  "cat_dog_both = [\<lparr>Name = ''Cat'', Confidence = 90\<rparr>, \<lparr>Name = ''Dog'', Confidence = 85\<rparr>]"

definition tr_pt :: "string \<Rightarrow> string" where
  "tr_pt n = (if n = ''Cat'' then ''Gato'' else if n = ''Dog'' then ''Cachorro'' else n)"

definition pt_translator :: "translate_request \<Rightarrow> js_error + translate_response" where
  "pt_translator r =
     (if Text r = [] then Inl (Rejected ''ValidationException: Text must have length at least 1'')
      else if Text r = ''Cat'' then Inr \<lparr>TranslatedText = ''Gato''\<rparr>
      else if Text r = ''Cat and Dog'' then Inr \<lparr>TranslatedText = ''Gato e Cachorro''\<rparr>
      else Inr \<lparr>TranslatedText = Text r\<rparr>)"

definition example_handler :: "label list \<Rightarrow> handler" where
  "example_handler labels =
     \<lparr>rekognitionService = (\<lambda>_. Inr \<lparr>Labels = labels\<rparr>), translatorService = pt_translator\<rparr>"

definition cat_trace :: "effect list" where
  "cat_trace = [Http_get (Some example_url), Detect_labels \<lparr>Image = \<lparr>Bytes = example_image\<rparr>\<rparr>,
                Translate_text (en_pt ''Cat'')]"

definition cat_response :: response where
  "cat_response = \<lparr>statusCode = 200, body = ''A imagem tem '' @ newline @ ''95.50% de ser do tipo Gato''\<rparr>"

text \<open>
  A label whose Portuguese name contains the separator (section 9 of the spec):
  the translation of \<open>"Black and white"\<close> splits into two pieces.
\<close>

definition bw_handler :: handler where
  "bw_handler =
     \<lparr>rekognitionService = (\<lambda>_. Inr \<lparr>Labels = [\<lparr>Name = ''Black and white'', Confidence = 90\<rparr>]\<rparr>),
      translatorService = (\<lambda>_. Inr \<lparr>TranslatedText = ''Preto e branco''\<rparr>)\<rparr>"

lemmas scenario_simps = main_def main_try_eq query_imageUrl_def formatTranslatedText_index
  format_loop.simps to_fixed_def fixed_point_string_def decimal_digits.simps char_of_def bit_0
  js_split_def io_call_def io_return_def Let_def example_event_def example_get_def
  example_handler_def pt_translator_def newline_def

lemma scenario_cat:
  "main example_get (example_handler cat_and_dog) example_event = Some (cat_trace, Inr cat_response)"
  by (simp add: scenario_simps cat_and_dog_def cat_trace_def cat_response_def)

lemma scenario_cat_dog:
  "main example_get (example_handler cat_dog_both) example_event =
     Some ([Http_get (Some example_url), Detect_labels \<lparr>Image = \<lparr>Bytes = example_image\<rparr>\<rparr>,
            Translate_text (en_pt ''Cat and Dog'')],
           Inr \<lparr>statusCode = 200, body = ''A imagem tem '' @ newline @
             ''90.00% de ser do tipo Gato'' @ newline @ ''85.00% de ser do tipo Cachorro''\<rparr>)"
  by (simp add: scenario_simps cat_dog_both_def)

section \<open>End-to-end properties\<close>

lemma split_join_lines:
  assumes "sep \<noteq> []" and "ys \<noteq> []" and "\<forall>y\<in>set ys. \<not> sublist sep (y @ butlast sep)"
  shows "js_split sep (js_join sep ys) = ys"
  using split_acc_js_join [OF assms(1,3,2), of "[]"] assms(1,2) by (simp add: js_split_split_acc)

text \<open>
  C3 (the handler implements the contract): take a request whose image is fetched
  and whose detection yields at least one label above 80, with confidences below
  \<open>10^21\<close>.  Suppose the translation service translates the \<open>' and '\<close>-joined
  names word by word, as some function \<open>tr\<close>, joining with \<open>' e '\<close>, and no
  translated name contains \<open>' e '\<close> or ends with \<open>' '\<close> or \<open>' e'\<close>.  Then the
  handler makes exactly the three calls (fetch, detect, translate) and answers
  200 with the intended report: one line per confident label, in order, each
  with its own confidence and its own translation.
\<close>

theorem main_refines_report:
  assumes "queryStringParameters event = Some q"
    and "get (q ''imageUrl'') = Inr resp"
    and "rekognitionService h \<lparr>Image = \<lparr>Bytes = data resp\<rparr>\<rparr> = Inr result"
    and "confident (Labels result) \<noteq> []"
    and "\<forall>l\<in>set (confident (Labels result)). \<bar>Confidence l\<bar> < 10 ^ 21"
    and "translatorService h (en_pt (js_join '' and '' (map Name (confident (Labels result))))) =
           Inr \<lparr>TranslatedText = js_join '' e '' (map (tr \<circ> Name) (confident (Labels result)))\<rparr>"
    and "\<forall>l\<in>set (confident (Labels result)). \<not> sublist '' e '' (tr (Name l) @ '' e'')"
  shows "main get h event =
    Some ([Http_get (q ''imageUrl''), Detect_labels \<lparr>Image = \<lparr>Bytes = data resp\<rparr>\<rparr>,
           Translate_text (en_pt (js_join '' and '' (map Name (confident (Labels result)))))],
          Inr \<lparr>statusCode = 200, body = ''A imagem tem '' @ newline @ intended_report tr (Labels result)\<rparr>)"
proof -
  let ?items = "confident (Labels result)"
  let ?texts = "map (tr \<circ> Name) ?items"
  have split: "js_split '' e '' (js_join '' e '' ?texts) = ?texts"
    using assms(4,7) by (intro split_join_lines) auto
  have "formatTranslatedText ?texts ?items =
      Some (Inr (js_join newline (map2 report_line ?texts ?items)))"
    using assms(5) by (simp add: formatTranslatedText_index format_loop_eq)
  also have "map2 report_line ?texts ?items = map (\<lambda>l. report_line (tr (Name l)) l) ?items"
    by (simp add: map2_map_left)
  finally have fmt: "formatTranslatedText ?texts ?items =
      Some (Inr (intended_report tr (Labels result)))"
    by (simp add: intended_report_def comp_def)
  have "main_try get h event =
    Some ([Http_get (q ''imageUrl''), Detect_labels \<lparr>Image = \<lparr>Bytes = data resp\<rparr>\<rparr>,
           Translate_text (en_pt (js_join '' and '' (map Name ?items)))],
          Inr \<lparr>statusCode = 200, body = ''A imagem tem '' @ newline @ intended_report tr (Labels result)\<rparr>)"
    using assms(1-3,6) split fmt by (simp add: main_try_eq query_imageUrl_def Let_def)
  then show ?thesis by (rule main_Inr)
qed

text \<open>
  C6 (one line per label): when no translated name contains a newline and there
  are at least as many labels as names, the report splits on newlines into
  exactly the reference lines, one per translated name, paired with the labels
  position by position.
\<close>

theorem report_lines:
  assumes "\<forall>l\<in>set workingItems. \<bar>Confidence l\<bar> < 10 ^ 21"
    and "texts \<noteq> []" and "length texts \<le> length workingItems"
    and "\<forall>t\<in>set texts. CHR 0x0A \<notin> set t"
  shows "\<exists>report. formatTranslatedText texts workingItems = Some (Inr report) \<and>
    js_split newline report = map2 report_line texts workingItems"
proof -
  let ?lines = "map2 report_line texts workingItems"
  have fmt: "formatTranslatedText texts workingItems = Some (Inr (js_join newline ?lines))"
    using assms(1,3) by (simp add: formatTranslatedText_index format_loop_eq)
  have "?lines \<noteq> []" using assms(2,3) by (cases texts; cases workingItems) auto
  moreover have "\<forall>y\<in>set ?lines. \<not> sublist newline (y @ butlast newline)"
  proof
    fix y assume "y \<in> set ?lines"
    then obtain t l where t: "t \<in> set texts" and l: "l \<in> set workingItems"
      and y: "y = report_line t l"
      by (auto dest: set_zip_leftD set_zip_rightD)
    have "\<bar>Confidence l\<bar> < 10 ^ 21" using assms(1) l by blast
    moreover have "CHR 0x0A \<notin> set t" using assms(4) t by blast
    ultimately have "CHR 0x0A \<notin> set y" unfolding y by (rule newline_notin_report_line)
    then show "\<not> sublist newline (y @ butlast newline)"
      by (simp add: newline_def sublist_singleton_iff)
  qed
  ultimately have "js_split newline (js_join newline ?lines) = ?lines"
    by (intro split_join_lines) (simp_all add: newline_def)
  with fmt show ?thesis by blast
qed

text \<open>
  C22 (a word-by-word translation never drops a label): when the translation
  service translates the \<open>' and '\<close>-joined names word by word, as any function
  \<open>tr\<close>, joining with \<open>' e '\<close>, the handler answers, and either answers 500 or
  answers 200 with exactly one line per confident label.  The split cannot
  give fewer pieces than names, because joining adds one separator per name
  and the scan finds at least that many; so the silent loss of trailing labels
  only happens when the service merges names.  Translated names that contain
  \<open>' e '\<close> give more pieces and a 500, or the same number of pieces cut at other
  places (\<open>"a e" + " e " + "b"\<close> splits into \<open>"a"\<close> and \<open>"e b"\<close>).
\<close>

theorem main_word_by_word_complete:
  assumes "queryStringParameters event = Some q" and "get (q ''imageUrl'') = Inr resp"
    and "rekognitionService h \<lparr>Image = \<lparr>Bytes = data resp\<rparr>\<rparr> = Inr result"
    and "translatorService h (en_pt (js_join '' and '' (map Name (confident (Labels result))))) =
           Inr \<lparr>TranslatedText = js_join '' e '' (map (tr \<circ> Name) (confident (Labels result)))\<rparr>"
    and "\<forall>l\<in>set (confident (Labels result)). \<bar>Confidence l\<bar> < 10 ^ 21"
  shows "\<exists>t r. main get h event = Some (t, Inr r) \<and>
    (r = error_response \<or>
     (let pieces = js_split '' e '' (js_join '' e '' (map (tr \<circ> Name) (confident (Labels result))))
      in length pieces = length (confident (Labels result)) \<and>
         r = \<lparr>statusCode = 200, body = ''A imagem tem '' @ newline @
               js_join newline (map2 report_line pieces (confident (Labels result)))\<rparr>))"
proof -
  let ?items = "confident (Labels result)"
  let ?pieces = "js_split '' e '' (js_join '' e '' (map (tr \<circ> Name) ?items))"
  have more: "length ?items \<le> length ?pieces"
    using length_js_split_join [of "'' e ''" "map (tr \<circ> Name) ?items"] by simp
  have fmt: "formatTranslatedText ?pieces ?items =
     Some (if length ?pieces \<le> length ?items
           then Inr (js_join newline (map2 report_line ?pieces ?items))
           else Inl undefined_confidence)"
    using assms(5) by (simp add: formatTranslatedText_index format_loop_eq)
  show ?thesis
  proof (cases "length ?pieces \<le> length ?items")
    case True
    with more have "length ?pieces = length ?items" by simp
    with True assms(1-4) fmt show ?thesis
      by (simp add: main_try_eq query_imageUrl_def Let_def main_Inr)
  next
    case False
    with assms(1-4) fmt show ?thesis
      by (simp add: main_try_eq query_imageUrl_def Let_def main_Inl)
  qed
qed

section \<open>Witnesses\<close>

text \<open>Each property with a hypothesis, applied to a scenario where the hypothesis holds.\<close>

theorem main_all_or_nothing_witness:
  "main example_get (example_handler cat_and_dog) example_event = Some (cat_trace, Inr cat_response) \<and>
   ((\<exists>e t'. main_try example_get (example_handler cat_and_dog) example_event = Some (t', Inl e) \<and>
      cat_trace = t' @ [Console_log (''Error**** '' @ js_error_stack e)] \<and> Inr cat_response = Inr error_response) \<or>
    (\<exists>s. main_try example_get (example_handler cat_and_dog) example_event = Some (cat_trace, Inr cat_response) \<and>
      Inr cat_response = Inr \<lparr>statusCode = 200, body = ''A imagem tem '' @ newline @ s\<rparr>))"
  using scenario_cat main_all_or_nothing [OF scenario_cat] by blast

theorem main_responds_witness:
  "\<exists>t resp. main example_get (example_handler cat_and_dog) example_event = Some (t, Inr resp)"
proof -
  have h: "\<forall>req result. rekognitionService (example_handler cat_and_dog) req = Inr result \<longrightarrow>
      (\<forall>l\<in>set (Labels result). \<bar>Confidence l\<bar> < 10 ^ 21)"
    by (simp add: example_handler_def cat_and_dog_def)
  show ?thesis using main_responds [OF h] by blast
qed

theorem main_refines_report_witness:
  "main example_get (example_handler cat_dog_both) example_event =
    Some ([Http_get (Some example_url), Detect_labels \<lparr>Image = \<lparr>Bytes = example_image\<rparr>\<rparr>,
           Translate_text (en_pt ''Cat and Dog'')],
          Inr \<lparr>statusCode = 200, body = ''A imagem tem '' @ newline @ intended_report tr_pt cat_dog_both\<rparr>)"
proof -
  have "main example_get (example_handler cat_dog_both) example_event =
    Some ([Http_get ([''imageUrl'' \<mapsto> example_url] ''imageUrl''),
           Detect_labels \<lparr>Image = \<lparr>Bytes = data \<lparr>data = example_image\<rparr>\<rparr>\<rparr>,
           Translate_text (en_pt (js_join '' and '' (map Name (confident (Labels \<lparr>Labels = cat_dog_both\<rparr>)))))],
          Inr \<lparr>statusCode = 200, body = ''A imagem tem '' @ newline @
                 intended_report tr_pt (Labels \<lparr>Labels = cat_dog_both\<rparr>)\<rparr>)"
    by (rule main_refines_report [where q = "[''imageUrl'' \<mapsto> example_url]"
          and resp = "\<lparr>data = example_image\<rparr>" and result = "\<lparr>Labels = cat_dog_both\<rparr>" and tr = tr_pt])
       (simp_all add: example_event_def example_get_def example_handler_def pt_translator_def
          cat_dog_both_def tr_pt_def sublist_code)
  then show ?thesis by (simp add: cat_dog_both_def)
qed

theorem formatTranslatedText_eq_witness:
  "formatTranslatedText [''Gato'', ''Cachorro'', ''Peixe''] cat_dog_both = Some (Inl undefined_confidence)"
proof -
  have h: "\<forall>l\<in>set cat_dog_both. \<bar>Confidence l\<bar> < 10 ^ 21" by (simp add: cat_dog_both_def)
  show ?thesis using formatTranslatedText_eq [OF h, of "[''Gato'', ''Cachorro'', ''Peixe'']"]
    by (simp add: cat_dog_both_def)
qed

theorem main_no_confident_label_witness:
  "\<exists>t. main example_get (example_handler [\<lparr>Name = ''Dog'', Confidence = 60\<rparr>]) example_event =
         Some (t, Inr error_response)"
  by (rule main_no_confident_label [where q = "[''imageUrl'' \<mapsto> example_url]"
        and resp = "\<lparr>data = example_image\<rparr>" and result = "\<lparr>Labels = [\<lparr>Name = ''Dog'', Confidence = 60\<rparr>]\<rparr>"])
     (simp_all add: example_event_def example_get_def example_handler_def)

theorem report_lines_witness:
  "\<exists>report. formatTranslatedText [''Gato'', ''Cachorro''] cat_dog_both = Some (Inr report) \<and>
     js_split newline report = map2 report_line [''Gato'', ''Cachorro''] cat_dog_both"
  by (rule report_lines) (simp_all add: cat_dog_both_def)

theorem main_detection_rejected_witness:
  "main example_get
     \<lparr>rekognitionService = (\<lambda>_. Inl (Rejected ''AccessDeniedException'')), translatorService = pt_translator\<rparr>
     example_event =
   Some ([Http_get (Some example_url), Detect_labels \<lparr>Image = \<lparr>Bytes = example_image\<rparr>\<rparr>,
          Console_log (''Error**** '' @ js_error_stack (Rejected ''AccessDeniedException''))],
         Inr error_response)"
  using main_detection_rejected [where q = "[''imageUrl'' \<mapsto> example_url]"
      and resp = "\<lparr>data = example_image\<rparr>" and e = "Rejected ''AccessDeniedException''"
      and get = example_get and event = example_event
      and h = "\<lparr>rekognitionService = (\<lambda>_. Inl (Rejected ''AccessDeniedException'')),
               translatorService = pt_translator\<rparr>"]
  by (simp add: example_event_def example_get_def)

theorem main_missing_query_witness:
  "main example_get (example_handler cat_and_dog) \<lparr>queryStringParameters = None\<rparr> =
    Some ([Console_log (''Error**** TypeError: '' @
            ''Cannot destructure property 'imageUrl' of 'event.queryStringParameters' as it is null.'')],
          Inr error_response)"
  by (rule main_missing_query) simp

theorem main_translate_request_witness:
  "Translate_text (en_pt ''Cat'') \<in> set cat_trace \<and>
   SourceLanguageCode (en_pt ''Cat'') = ''en'' \<and> TargetLanguageCode (en_pt ''Cat'') = ''pt'' \<and>
   (\<exists>req result. rekognitionService (example_handler cat_and_dog) req = Inr result \<and>
      Text (en_pt ''Cat'') = js_join '' and '' (map Name (confident (Labels result))))"
proof -
  have p: "Translate_text (en_pt ''Cat'') \<in> set cat_trace" by (simp add: cat_trace_def)
  show ?thesis using p main_translate_request [OF scenario_cat p] by blast
qed

theorem main_detect_bytes_witness:
  "Detect_labels \<lparr>Image = \<lparr>Bytes = example_image\<rparr>\<rparr> \<in> set cat_trace \<and>
   (\<exists>url resp. query_imageUrl example_event = Inr url \<and> example_get url = Inr resp \<and>
      Bytes (detect_labels_request.Image \<lparr>Image = \<lparr>Bytes = example_image\<rparr>\<rparr>) = data resp)"
proof -
  have p: "Detect_labels \<lparr>Image = \<lparr>Bytes = example_image\<rparr>\<rparr> \<in> set cat_trace" by (simp add: cat_trace_def)
  show ?thesis using p main_detect_bytes [OF scenario_cat p] by blast
qed

theorem main_iff_reach_witness:
  "reach example_get (example_handler cat_and_dog) example_event (Done cat_response, cat_trace)"
  using main_iff_reach scenario_cat by blast

theorem reach_stage_trace_witness: "stage_trace (Done cat_response) (map kind_of cat_trace)"
proof -
  have "finish example_get (example_handler cat_and_dog) (Received example_event) =
      Some (cat_trace, Inr cat_response)"
    using scenario_cat by simp
  from reach_progress [OF this reach.start]
  have "reach example_get (example_handler cat_and_dog) example_event (Done cat_response, cat_trace)"
    by simp
  then show ?thesis by (rule reach_stage_trace)
qed

theorem reach_completes_witness:
  "\<exists>r u. reach example_get (example_handler cat_and_dog) example_event (Done r, [] @ u)"
proof -
  have h: "\<forall>req result. rekognitionService (example_handler cat_and_dog) req = Inr result \<longrightarrow>
      (\<forall>l\<in>set (Labels result). \<bar>Confidence l\<bar> < 10 ^ 21)"
    by (simp add: example_handler_def cat_and_dog_def)
  show ?thesis using reach_completes [OF h reach.start] .
qed

theorem main_translated_witness:
  "main example_get bw_handler example_event =
    Some ([Http_get (Some example_url), Detect_labels \<lparr>Image = \<lparr>Bytes = example_image\<rparr>\<rparr>,
           Translate_text (en_pt ''Black and white''),
           Console_log (''Error**** '' @ js_error_stack undefined_confidence)], Inr error_response)"
  using main_translated [where q = "[''imageUrl'' \<mapsto> example_url]"
      and resp = "\<lparr>data = example_image\<rparr>"
      and result = "\<lparr>Labels = [\<lparr>Name = ''Black and white'', Confidence = 90\<rparr>]\<rparr>"
      and tr = "\<lparr>TranslatedText = ''Preto e branco''\<rparr>"
      and get = example_get and h = bw_handler and event = example_event]
  by (simp add: example_event_def example_get_def bw_handler_def js_split_def)

theorem main_fetch_rejected_witness:
  "main example_get (example_handler cat_and_dog)
     \<lparr>queryStringParameters = Some [''imageUrl'' \<mapsto> ''https://example.com/missing.png'']\<rparr> =
   Some ([Http_get (Some ''https://example.com/missing.png''),
          Console_log (''Error**** '' @ js_error_stack
            (Rejected ''AxiosError: Request failed with status code 404''))], Inr error_response)"
  using main_fetch_rejected [where q = "[''imageUrl'' \<mapsto> ''https://example.com/missing.png'']"
      and e = "Rejected ''AxiosError: Request failed with status code 404''"
      and get = example_get and h = "example_handler cat_and_dog"]
  by (simp add: example_get_def example_url_def)

theorem main_translate_rejected_witness:
  "main example_get
     \<lparr>rekognitionService = (\<lambda>_. Inr \<lparr>Labels = cat_and_dog\<rparr>),
      translatorService = (\<lambda>_. Inl (Rejected ''ThrottlingException''))\<rparr>
     example_event =
   Some ([Http_get (Some example_url), Detect_labels \<lparr>Image = \<lparr>Bytes = example_image\<rparr>\<rparr>,
          Translate_text (en_pt ''Cat''),
          Console_log (''Error**** '' @ js_error_stack (Rejected ''ThrottlingException''))],
         Inr error_response)"
  using main_translate_rejected [where q = "[''imageUrl'' \<mapsto> example_url]"
      and resp = "\<lparr>data = example_image\<rparr>" and result = "\<lparr>Labels = cat_and_dog\<rparr>"
      and e = "Rejected ''ThrottlingException''" and get = example_get and event = example_event
      and h = "\<lparr>rekognitionService = (\<lambda>_. Inr \<lparr>Labels = cat_and_dog\<rparr>),
               translatorService = (\<lambda>_. Inl (Rejected ''ThrottlingException''))\<rparr>"]
  by (simp add: example_event_def example_get_def cat_and_dog_def)

theorem main_word_by_word_complete_witness:
  "\<exists>t r. main example_get (example_handler cat_dog_both) example_event = Some (t, Inr r) \<and>
    (r = error_response \<or>
     (let pieces = js_split '' e '' (js_join '' e '' (map (tr_pt \<circ> Name) (confident cat_dog_both)))
      in length pieces = length (confident cat_dog_both) \<and>
         r = \<lparr>statusCode = 200, body = ''A imagem tem '' @ newline @
               js_join newline (map2 report_line pieces (confident cat_dog_both))\<rparr>))"
proof -
  have "\<exists>t r. main example_get (example_handler cat_dog_both) example_event = Some (t, Inr r) \<and>
    (r = error_response \<or>
     (let pieces = js_split '' e '' (js_join '' e ''
                     (map (tr_pt \<circ> Name) (confident (Labels \<lparr>Labels = cat_dog_both\<rparr>))))
      in length pieces = length (confident (Labels \<lparr>Labels = cat_dog_both\<rparr>)) \<and>
         r = \<lparr>statusCode = 200, body = ''A imagem tem '' @ newline @
               js_join newline (map2 report_line pieces (confident (Labels \<lparr>Labels = cat_dog_both\<rparr>)))\<rparr>))"
    by (rule main_word_by_word_complete [where q = "[''imageUrl'' \<mapsto> example_url]"
          and resp = "\<lparr>data = example_image\<rparr>" and result = "\<lparr>Labels = cat_dog_both\<rparr>"])
       (simp_all add: example_event_def example_get_def example_handler_def pt_translator_def
          cat_dog_both_def tr_pt_def)
  then show ?thesis by simp
qed

theorem main_report_confident_witness:
  "statusCode cat_response = 200 \<and>
   (\<exists>req result pieces. rekognitionService (example_handler cat_and_dog) req = Inr result \<and>
      length pieces \<le> length (confident (Labels result)) \<and>
      body cat_response = ''A imagem tem '' @ newline @
        js_join newline (map2 report_line pieces (confident (Labels result))))"
proof -
  have s: "statusCode cat_response = 200" by (simp add: cat_response_def)
  show ?thesis using s main_report_confident [OF scenario_cat s] by blast
qed

theorem main_missing_imageUrl_witness:
  "main example_get (example_handler cat_and_dog) \<lparr>queryStringParameters = Some Map.empty\<rparr> =
     Some ([Http_get None,
            Console_log (''Error**** '' @ ''AxiosError: Request failed with status code 404'')],
           Inr error_response) \<and>
   (\<exists>t'. [Http_get None,
          Console_log (''Error**** '' @ ''AxiosError: Request failed with status code 404'')] =
        Http_get None # t')"
proof -
  have m: "main example_get (example_handler cat_and_dog) \<lparr>queryStringParameters = Some Map.empty\<rparr> =
     Some ([Http_get None,
            Console_log (''Error**** '' @ ''AxiosError: Request failed with status code 404'')],
           Inr error_response)"
    by (simp add: scenario_simps)
  show ?thesis using m main_missing_imageUrl [OF _ _ m] by simp
qed

end
